theory Spec2Isabelle
  imports Complex_Main "HOL-Library.Sublist"
begin

section \<open>Carousel state and events\<close>

text \<open>
  Each of the three carousels keeps two React state cells: the scroll index
  (\<open>pressIndex\<close> in the page, \<open>index\<close> in the two rails) and the measured viewport
  width \<open>viewportW\<close>. Both start at 0 (\<open>useState(0)\<close>). The width is an
  \<open>Element.clientWidth\<close>, an integer number of pixels; the index only ever holds
  integers. JavaScript numbers are doubles, which are exact on the integers that occur
  here, so both cells are modelled as \<open>int\<close>. The drag offset \<open>info.offset.x\<close> may be
  fractional and is a \<open>real\<close>.
\<close>

record carousel =
  index :: int
  viewportW :: int

text \<open>
  The handlers a carousel reacts to: a click on the left or right nav button, the end
  of a drag with horizontal offset \<open>x\<close>, and a run of the \<open>update\<close> callback
  (on mount and from the \<open>ResizeObserver\<close>) that read \<open>el.clientWidth = w\<close>.
\<close>

datatype event = ClickPrev | ClickNext | DragEnd real | Resize int

definition initial :: carousel where
  "initial = \<lparr>index = 0, viewportW = 0\<rparr>"

section \<open>Press carousel of the page (page.tsx)\<close>

text \<open>
  \<open>PressItem\<close>; its fields \<open>href\<close> and \<open>image\<close> are named \<open>item_href\<close> and
  \<open>item_image\<close> here.
\<close>

record PressItem =
  title :: string
  item_href :: string
  source :: "string option"
  item_image :: "string option"

definition pressItems :: "PressItem list" where
  "pressItems =
    [\<lparr>title = ''Featured in launch of ChatGPT Pulse'',
      item_href = ''https://openai.com/index/introducing-chatgpt-pulse/'',
      source = Some ''OpenAI'',
      item_image = Some ''https://pub-41d52824b0bb4f44898c39e1c3c63cb8.r2.dev/press/pulse.jpg''\<rparr>,
     \<lparr>title = ''OpenAI Instagram spotlight on ChatGPT Study Mode'',
      item_href = ''https://www.instagram.com/chatgpt/reel/DNyG5VvXEZM/'',
      source = Some ''OpenAI'',
      item_image = Some ''https://pub-41d52824b0bb4f44898c39e1c3c63cb8.r2.dev/press/study-mode.jpg''\<rparr>,
     \<lparr>title = ''WashU Rhodes Scholar finalist'',
      item_href = ''https://source.wustl.edu/2024/11/seniors-darden-seiler-were-rhodes-scholars-finalists/'',
      source = Some ''Rhodes Trust'',
      item_image = Some ''https://pub-41d52824b0bb4f44898c39e1c3c63cb8.r2.dev/press/rhodes.jpg''\<rparr>,
     \<lparr>title = ''Co-published Book on Education Uses of ChatGPT'',
      item_href = ''https://chatgpt.com/100chats-project'',
      source = Some ''OpenAI'',
      item_image = Some ''https://pub-41d52824b0bb4f44898c39e1c3c63cb8.r2.dev/press/100chats.jpg''\<rparr>,
     \<lparr>title = ''Awarded 2024 Michigan Truman Scholarship'',
      item_href = ''https://source.washu.edu/2024/04/junior-seiler-awarded-truman-scholarship/'',
      source = Some ''Washington University'',
      item_image = Some ''https://pub-41d52824b0bb4f44898c39e1c3c63cb8.r2.dev/press/truman.jpg''\<rparr>,
     \<lparr>title = ''Awarded 2025 Fulbright to Taiwan'',
      item_href = ''https://source.wustl.edu/2025/06/several-alumni-earn-fulbright-awards/'',
      source = Some ''Washington University'',
      item_image = Some ''https://pub-41d52824b0bb4f44898c39e1c3c63cb8.r2.dev/press/fulbright.jpg''\<rparr>,
     \<lparr>title = ''Truman Scholarship Q+A'',
      item_href = '''',
      source = Some ''Student Life'',
      item_image = Some ''https://pub-41d52824b0bb4f44898c39e1c3c63cb8.r2.dev/press/trumanisaac.jpg''\<rparr>,
     \<lparr>title = ''60 Truman Scholars Announced For 2024'',
      item_href = '''',
      source = Some ''Forbes'',
      item_image = Some ''https://pub-41d52824b0bb4f44898c39e1c3c63cb8.r2.dev/press/harrytruman.jpg''\<rparr>,
     \<lparr>title = ''Included in the best newspaper honor at Missouri College Media awards'',
      item_href = '''',
      source = Some ''Washington University'',
      item_image = Some ''https://pub-41d52824b0bb4f44898c39e1c3c63cb8.r2.dev/press/washuspring.png''\<rparr>,
     \<lparr>title = ''University profile'',
      item_href = ''https://artsci.washu.edu/ampersand/isaac-seiler-setting-his-sights-high'',
      source = Some ''Washington University'',
      item_image = Some ''https://pub-41d52824b0bb4f44898c39e1c3c63cb8.r2.dev/press/wustl.jpg''\<rparr>]"

definition CARD_WIDTH :: int where
  "CARD_WIDTH = 253"

definition CARD_GAP :: int where
  "CARD_GAP = 16"

definition page_clamp :: "int \<Rightarrow> int \<Rightarrow> int \<Rightarrow> int" where
  "page_clamp n mn mx = min mx (max mn n)"

text \<open>
  \<open>ExperiencePage\<close> reads the module constant \<open>pressItems\<close>. The functions below take
  the item list as an argument \<open>items\<close>, so that the branches guarded by \<open>hasPress\<close>
  can be exercised; the page itself is the instance \<open>items = pressItems\<close>.
\<close>

definition pressCount :: "PressItem list \<Rightarrow> int" where
  "pressCount items = int (length items)"

definition hasPress :: "PressItem list \<Rightarrow> bool" where
  "hasPress items = (pressCount items > 0)"

text \<open>
  \<open>if (!viewportW) return 1;
  return Math.max(1, Math.floor((viewportW + CARD_GAP) / (CARD_WIDTH + CARD_GAP)));\<close>
\<close>

definition page_visibleCount :: "int \<Rightarrow> int" where
  "page_visibleCount vw =
     (if vw = 0 then 1
      else max 1 \<lfloor>real_of_int (vw + CARD_GAP) / real_of_int (CARD_WIDTH + CARD_GAP)\<rfloor>)"

definition maxPressIndex :: "PressItem list \<Rightarrow> carousel \<Rightarrow> int" where
  "maxPressIndex items st = max 0 (pressCount items - page_visibleCount (viewportW st))"

definition page_canPrev :: "carousel \<Rightarrow> bool" where
  "page_canPrev st = (index st > 0)"

definition page_canNext :: "PressItem list \<Rightarrow> carousel \<Rightarrow> bool" where
  "page_canNext items st = (index st < maxPressIndex items st)"

definition goPrevPress :: "PressItem list \<Rightarrow> carousel \<Rightarrow> carousel" where
  "goPrevPress items st =
     (if \<not> hasPress items then st
      else st\<lparr>index := max 0 (index st - 1)\<rparr>)"

definition goNextPress :: "PressItem list \<Rightarrow> carousel \<Rightarrow> carousel" where
  "goNextPress items st =
     (if \<not> hasPress items then st
      else st\<lparr>index := min (maxPressIndex items st) (index st + 1)\<rparr>)"

definition page_onDragEnd :: "PressItem list \<Rightarrow> real \<Rightarrow> carousel \<Rightarrow> carousel" where
  "page_onDragEnd items x st =
     (if x < - 60 \<and> page_canNext items st then goNextPress items st
      else if x > 60 \<and> page_canPrev st then goPrevPress items st
      else st)"

text \<open>
  \<open>update\<close> stores \<open>el.clientWidth || 0\<close>. It runs only when the viewport element
  exists, and the page renders that element only when \<open>hasPress\<close> holds; otherwise the
  mount effect returns early and no measurement ever happens. The effect with dependency
  \<open>[maxPressIndex]\<close> then runs exactly when the recomputed maximum differs from the one
  of the previous render, and sets the index to \<open>clamp(prev, 0, maxPressIndex)\<close>.
\<close>

definition page_update :: "PressItem list \<Rightarrow> int \<Rightarrow> carousel \<Rightarrow> carousel" where
  "page_update items w st =
     (let st' = st\<lparr>viewportW := (if w = 0 then 0 else w)\<rparr>
      in if maxPressIndex items st' \<noteq> maxPressIndex items st
         then st'\<lparr>index := page_clamp (index st') 0 (maxPressIndex items st')\<rparr>
         else st')"

fun page_step :: "PressItem list \<Rightarrow> carousel \<Rightarrow> event \<Rightarrow> carousel" where
  "page_step items st ClickPrev = goPrevPress items st"
| "page_step items st ClickNext = goNextPress items st"
| "page_step items st (DragEnd x) = page_onDragEnd items x st"
| "page_step items st (Resize w) = page_update items w st"

text \<open>
  On mount both cells are 0 and the clamp effect runs once. \<open>page_run\<close> is the state
  after the given handlers have run in order.
\<close>

definition page_mount :: "PressItem list \<Rightarrow> carousel" where
  "page_mount items =
     initial\<lparr>index := page_clamp (index initial) 0 (maxPressIndex items initial)\<rparr>"

definition page_run :: "PressItem list \<Rightarrow> event list \<Rightarrow> carousel" where
  "page_run items evs = foldl (page_step items) (page_mount items) evs"

text \<open>
  Which handlers the mounted page can run. The viewport element (whose ref the mount
  effect reads before calling \<open>update\<close> and creating the \<open>ResizeObserver\<close>), the
  dragged strip and the two nav buttons are all rendered inside \<open>hasPress && (...)\<close>.
  With no press items none of them exists: the mount effect returns at
  \<open>if (!el) return\<close>, nothing is measured, and there is nothing to click or drag, so no
  handler runs and the state stays as mounted. With press items every handler is
  attached and an event runs \<open>page_step\<close>.
\<close>

definition page_mounted_step :: "PressItem list \<Rightarrow> carousel \<Rightarrow> event \<Rightarrow> carousel" where
  "page_mounted_step items st e = (if hasPress items then page_step items st e else st)"

definition page_mounted_run :: "PressItem list \<Rightarrow> event list \<Rightarrow> carousel" where
  "page_mounted_run items evs = foldl (page_mounted_step items) (page_mount items) evs"

section \<open>Experience data (experienceData.ts)\<close>

record PressHit =
  publisher :: string
  href :: string
  logo :: string

text \<open>
  Of \<open>ExperienceItem\<close> the fields that the grouping and the timeline entry compute with
  are kept: \<open>role\<close>, \<open>org\<close>, \<open>link\<close>, \<open>image\<close> (here \<open>exp_image\<close>), \<open>photos\<close> and
  \<open>pressHits\<close>. The
  fields \<open>dates\<close>, \<open>summary\<close> and \<open>link_text\<close> are display text only (they are put on
  the page and never inspected) and are left out. An optional field that is absent or
  \<open>null\<close> is \<open>None\<close>. Strings are lists of code units; every \<open>role\<close> and \<open>org\<close> of the
  data is ASCII.
\<close>

record ExperienceItem =
  role :: string
  org :: string
  link :: "string option"
  exp_image :: "string option"
  photos :: "string list option"
  pressHits :: "PressHit list option"

definition raw :: "ExperienceItem list" where
  "raw =
    [\<lparr>role = ''Fulbright Scholar'',
      org = ''Fulbright Taiwan'',
      link = Some ''https://fulbright.org/'',
      exp_image = None,
      photos = None,
      pressHits = None\<rparr>,
     \<lparr>role = ''ChatGPT Lab Member'',
      org = ''OpenAI'',
      link = Some ''https://chatgpt.com/use-cases/students'',
      exp_image = None,
      photos = None,
      pressHits = None\<rparr>,
     \<lparr>role = ''AI and Emerging Tech Research Fellow'',
      org = ''Council for State Governments, Center for Innovation'',
      link = None,
      exp_image = None,
      photos = None,
      pressHits = None\<rparr>,
     \<lparr>role = ''Social Impact Communications and Strategy'',
      org = ''Boehringer Ingelheim Pharmaceuticals'',
      link = Some ''https://www.boehringer-ingelheim.com/annualreport/2024/facts-and-figures/'',
      exp_image = None,
      photos = None,
      pressHits = None\<rparr>,
     \<lparr>role = ''Freelance Communications Strategy Consultant'',
      org = ''Isaac Seiler Strategies'',
      link = Some ''https://www.allysonfortustin.com/'',
      exp_image = None,
      photos = None,
      pressHits = None\<rparr>,
     \<lparr>role = ''Communications Director and Transition Aide'',
      org = ''United States House of Representatives'',
      link = Some ''https://www.notion.so/Press-Hit-List-25b96844a3ac4a8abac3d749412938cb?source=copy_link'',
      exp_image = None,
      photos = None,
      pressHits = Some
        [\<lparr>publisher = ''CNN'',
          href = ''https://www.cnn.com/shows/state-of-the-union'',
          logo = ''https://pub-41d52824b0bb4f44898c39e1c3c63cb8.r2.dev/media-portfolio/cnn.png''\<rparr>,
         \<lparr>publisher = ''Dispatch'',
          href = ''https://www.dispatch.com/'',
          logo = ''https://pub-41d52824b0bb4f44898c39e1c3c63cb8.r2.dev/media-portfolio/dispatch.png''\<rparr>,
         \<lparr>publisher = ''NYT'',
          href = ''https://www.nytimes.com/'',
          logo = ''https://pub-41d52824b0bb4f44898c39e1c3c63cb8.r2.dev/media-portfolio/nyt.png''\<rparr>,
         \<lparr>publisher = ''WaPo'',
          href = ''https://www.washingtonpost.com/'',
          logo = ''https://pub-41d52824b0bb4f44898c39e1c3c63cb8.r2.dev/media-portfolio/wapo.png''\<rparr>,
         \<lparr>publisher = ''Slate'',
          href = ''https://slate.com/'',
          logo = ''https://pub-41d52824b0bb4f44898c39e1c3c63cb8.r2.dev/media-portfolio/slate.png''\<rparr>,
         \<lparr>publisher = ''Michigan\<newline>Advance'',
          href = ''https://michiganadvance.com/'',
          logo = ''https://pub-41d52824b0bb4f44898c39e1c3c63cb8.r2.dev/media-portfolio/advance.png''\<rparr>,
         \<lparr>publisher = ''MLive'',
          href = ''https://www.mlive.com/'',
          logo = ''https://pub-41d52824b0bb4f44898c39e1c3c63cb8.r2.dev/media-portfolio/mlive.png''\<rparr>,
         \<lparr>publisher = ''RIAA'',
          href = ''https://www.riaa.com/'',
          logo = ''https://pub-41d52824b0bb4f44898c39e1c3c63cb8.r2.dev/media-portfolio/riaa.png''\<rparr>,
         \<lparr>publisher = ''The\<newline>19th'',
          href = ''https://19thnews.org/'',
          logo = ''https://pub-41d52824b0bb4f44898c39e1c3c63cb8.r2.dev/media-portfolio/19th.png''\<rparr>]\<rparr>,
     \<lparr>role = ''Digital Communications, Logistics, and Strategy'',
      org = ''Hillary Scholten for U.S. Congress'',
      link = Some ''https://www.vanityfair.com/news/2022/06/democrats-midterms-house-michigan-districts-scholten-meijer'',
      exp_image = None,
      photos = None,
      pressHits = None\<rparr>,
     \<lparr>role = ''Research Assistant'',
      org = ''Institute for Nonprofit News'',
      link = Some ''https://inn.org/research/inn-index/inn-index-2022/inn-index-2022/'',
      exp_image = None,
      photos = None,
      pressHits = None\<rparr>]"

text \<open>\<open>String.prototype.includes\<close>: the pattern occurs as a contiguous run of code units.\<close>

fun str_includes :: "string \<Rightarrow> string \<Rightarrow> bool" where
  "str_includes [] p = (p = [])"
| "str_includes (c # cs) p = (prefix p (c # cs) \<or> str_includes cs p)"

text \<open>
  The object literal \<open>order\<close>, as its properties in the order they are written.
\<close>

definition order :: "(string \<times> (ExperienceItem \<Rightarrow> bool)) list" where
  "order =
    [(''2025'', \<lambda>i. str_includes (role i) ''Fulbright'' \<or>
                    str_includes (role i) ''ChatGPT Lab'' \<or>
                    str_includes (role i) ''Emerging Tech''),
     (''2024'', \<lambda>i. str_includes (role i) ''Social Impact'' \<or>
                    str_includes (role i) ''Freelance Communications''),
     (''2023'', \<lambda>i. str_includes (role i) ''Communications Director''),
     (''2022'', \<lambda>i. str_includes (role i) ''Digital Communications''),
     (''2021'', \<lambda>i. str_includes (role i) ''Research Assistant'')]"

text \<open>
  \<open>Number(s)\<close> on a string of decimal digits, the only strings it is applied to here.
\<close>

definition digit_val :: "char \<Rightarrow> int" where
  "digit_val c = int (of_char c) - 48"

definition Number :: "string \<Rightarrow> int" where
  "Number s = foldl (\<lambda>acc c. 10 * acc + digit_val c) 0 s"

definition isDigit :: "char \<Rightarrow> bool" where
  "isDigit c = (48 \<le> (of_char c :: nat) \<and> (of_char c :: nat) \<le> 57)"

text \<open>
  A property key is an array index when it is the canonical decimal form of an integer
  below \<open>2^32 - 1\<close>. \<open>Object.keys\<close> lists such keys first, in ascending numeric order,
  and the other string keys after them in insertion order. An object is modelled as its
  properties in insertion order, with distinct keys.
\<close>

definition isArrayIndex :: "string \<Rightarrow> bool" where
  "isArrayIndex s =
     (case s of
        [] \<Rightarrow> False
      | c # cs \<Rightarrow> list_all isDigit s \<and> (if c = CHR ''0'' then cs = [] else True) \<and>
                 Number s < 2 ^ 32 - 1)"

definition Object_keys :: "(string \<times> 'a) list \<Rightarrow> string list" where
  "Object_keys obj =
     sort_key Number (filter isArrayIndex (map fst obj)) @
     filter (\<lambda>k. \<not> isArrayIndex k) (map fst obj)"

text \<open>
  \<open>Object.fromEntries(Object.keys(order).map((y) => [y, raw.filter(order[y])]))\<close>.
  A lookup \<open>order[y]\<close> that found nothing would hand \<open>undefined\<close> to \<open>filter\<close>, which
  throws a TypeError while the module loads; that outcome is \<open>None\<close>. The keys produced
  are distinct, so \<open>fromEntries\<close> keeps every pair.
\<close>

definition experienceByYear :: "(string \<times> ExperienceItem list) list option" where
  "experienceByYear =
     those (map (\<lambda>y. map_option (\<lambda>p. (y, filter p raw)) (map_of order y))
                (Object_keys order))"

section \<open>Experience deck (ExperienceDeck.tsx)\<close>

text \<open>\<open>ExperienceWithYear = ExperienceItem & { year: string }\<close>.\<close>

record ExperienceWithYear = ExperienceItem +
  year :: string

text \<open>The spread \<open>{ ...item, year }\<close>.\<close>

definition withYear :: "string \<Rightarrow> ExperienceItem \<Rightarrow> ExperienceWithYear" where
  "withYear y item =
     \<lparr>role = role item, org = org item, link = link item, exp_image = exp_image item,
      photos = photos item, pressHits = pressHits item, year = y\<rparr>"

text \<open>
  \<open>buildItems\<close>: the keys sorted by \<open>Number(b) - Number(a)\<close> (\<open>Array.prototype.sort\<close>
  is stable, as is \<open>sort_key\<close>), then \<open>flatMap\<close> over \<open>experienceByYear[year] ?? []\<close>.
\<close>

definition buildItems :: "ExperienceWithYear list option" where
  "buildItems =
     map_option
       (\<lambda>byYear.
          let years = sort_key (\<lambda>y. - Number y) (Object_keys byYear)
          in concat (map (\<lambda>year. map (withYear year)
                                     (case map_of byYear year of Some items \<Rightarrow> items | None \<Rightarrow> []))
                         years))
       experienceByYear"

definition deck_clamp :: "int \<Rightarrow> int \<Rightarrow> int \<Rightarrow> int" where
  "deck_clamp n mn mx = min mx (max mn n)"

definition DEFAULT_COMMS_PRESS_HITS :: "PressHit list" where
  "DEFAULT_COMMS_PRESS_HITS =
    [\<lparr>publisher = ''CNN'',
      href = ''https://www.cnn.com/shows/state-of-the-union'',
      logo = ''https://pub-41d52824b0bb4f44898c39e1c3c63cb8.r2.dev/media-portfolio/cnn.png''\<rparr>,
     \<lparr>publisher = ''Dispatch'',
      href = ''https://www.dispatch.com/'',
      logo = ''https://pub-41d52824b0bb4f44898c39e1c3c63cb8.r2.dev/media-portfolio/dispatch.png''\<rparr>,
     \<lparr>publisher = ''NYT'',
      href = ''https://www.nytimes.com/'',
      logo = ''https://pub-41d52824b0bb4f44898c39e1c3c63cb8.r2.dev/media-portfolio/nyt.png''\<rparr>,
     \<lparr>publisher = ''WaPo'',
      href = ''https://www.washingtonpost.com/'',
      logo = ''https://pub-41d52824b0bb4f44898c39e1c3c63cb8.r2.dev/media-portfolio/wapo.png''\<rparr>,
     \<lparr>publisher = ''Slate'',
      href = ''https://slate.com/'',
      logo = ''https://pub-41d52824b0bb4f44898c39e1c3c63cb8.r2.dev/media-portfolio/slate.png''\<rparr>,
     \<lparr>publisher = ''Michigan\<newline>Advance'',
      href = ''https://michiganadvance.com/'',
      logo = ''https://pub-41d52824b0bb4f44898c39e1c3c63cb8.r2.dev/media-portfolio/advance.png''\<rparr>,
     \<lparr>publisher = ''MLive'',
      href = ''https://www.mlive.com/'',
      logo = ''https://pub-41d52824b0bb4f44898c39e1c3c63cb8.r2.dev/media-portfolio/mlive.png''\<rparr>,
     \<lparr>publisher = ''RIAA'',
      href = ''https://www.riaa.com/'',
      logo = ''https://pub-41d52824b0bb4f44898c39e1c3c63cb8.r2.dev/media-portfolio/riaa.png''\<rparr>,
     \<lparr>publisher = ''The\<newline>19th'',
      href = ''https://19thnews.org/'',
      logo = ''https://pub-41d52824b0bb4f44898c39e1c3c63cb8.r2.dev/media-portfolio/19th.png''\<rparr>]"

text \<open>
  \<open>String.prototype.toLowerCase\<close> on ASCII code units: the letters A to Z move to
  a to z, every other code unit stays.
\<close>

definition toLowerCase_char :: "char \<Rightarrow> char" where
  "toLowerCase_char c =
     (let n = (of_char c :: nat) in if 65 \<le> n \<and> n \<le> 90 then char_of (n + 32) else c)"

definition toLowerCase :: "string \<Rightarrow> string" where
  "toLowerCase s = map toLowerCase_char s"

text \<open>The part of \<open>TimelineEntry\<close> that chooses the press hits and decides on the rail.\<close>

definition isCommsDirector :: "('a ExperienceItem_scheme) \<Rightarrow> bool" where
  "isCommsDirector item =
     (str_includes (toLowerCase (role item)) ''communications director'' \<or>
      str_includes (toLowerCase (org item)) ''house of representatives'')"

text \<open>
  \<open>(item.pressHits?.length ? item.pressHits : undefined) ??
   (isCommsDirector ? DEFAULT_COMMS_PRESS_HITS : [])\<close>
\<close>

definition entry_pressHits :: "('a ExperienceItem_scheme) \<Rightarrow> PressHit list" where
  "entry_pressHits item =
     (case (case pressHits item of
              None \<Rightarrow> None
            | Some hs \<Rightarrow> if length hs \<noteq> 0 then Some hs else None) of
        Some hs \<Rightarrow> hs
      | None \<Rightarrow> if isCommsDirector item then DEFAULT_COMMS_PRESS_HITS else [])"

text \<open>\<open>pressHits.length > 0 && <PressHitsRail hits={pressHits} ... />\<close>\<close>

definition entry_rail :: "('a ExperienceItem_scheme) \<Rightarrow> PressHit list option" where
  "entry_rail item =
     (if length (entry_pressHits item) > 0 then Some (entry_pressHits item) else None)"

text \<open>
  The photos of an entry:
  \<open>fromList = (item.photos ?? undefined)?.filter(Boolean) ?? []\<close>,
  \<open>fromSingle = item.image ? [item.image] : []\<close>, and
  \<open>fromList.length ? fromList : fromSingle\<close>. An empty string is falsy, so
  \<open>filter(Boolean)\<close> drops it and an empty \<open>image\<close> counts as none.
\<close>

definition entry_photos :: "('a ExperienceItem_scheme) \<Rightarrow> string list" where
  "entry_photos item =
     (let fromList = (case photos item of None \<Rightarrow> [] | Some ps \<Rightarrow> filter (\<lambda>s. s \<noteq> []) ps);
          fromSingle = (case exp_image item of
                          None \<Rightarrow> []
                        | Some s \<Rightarrow> if s \<noteq> [] then [s] else [])
      in if length fromList \<noteq> 0 then fromList else fromSingle)"

text \<open>\<open>photos.length > 0 && <PhotoRail photos={photos} ... />\<close>\<close>

definition entry_photoRail :: "('a ExperienceItem_scheme) \<Rightarrow> string list option" where
  "entry_photoRail item =
     (if length (entry_photos item) > 0 then Some (entry_photos item) else None)"

subsection \<open>Press hits rail (PressHitsRail)\<close>

definition HIT_DIAMETER :: int where
  "HIT_DIAMETER = 72"

definition HIT_GAP :: int where
  "HIT_GAP = 16"

definition hits_visibleCount :: "int \<Rightarrow> int" where
  "hits_visibleCount vw =
     (if vw = 0 then 1
      else max 1 \<lfloor>real_of_int (vw + HIT_GAP) / real_of_int (HIT_DIAMETER + HIT_GAP)\<rfloor>)"

definition hits_maxIndex :: "PressHit list \<Rightarrow> carousel \<Rightarrow> int" where
  "hits_maxIndex hits st = max 0 (int (length hits) - hits_visibleCount (viewportW st))"

definition hits_canPrev :: "carousel \<Rightarrow> bool" where
  "hits_canPrev st = (index st > 0)"

definition hits_canNext :: "PressHit list \<Rightarrow> carousel \<Rightarrow> bool" where
  "hits_canNext hits st = (index st < hits_maxIndex hits st)"

text \<open>
  \<open>if (info.offset.x < -60 && canNext) setIndex((v) => v + 1);
  else if (info.offset.x > 60 && canPrev) setIndex((v) => v - 1);\<close>
\<close>

definition hits_onDragEnd :: "PressHit list \<Rightarrow> real \<Rightarrow> carousel \<Rightarrow> carousel" where
  "hits_onDragEnd hits x st =
     (if x < - 60 \<and> hits_canNext hits st then st\<lparr>index := index st + 1\<rparr>
      else if x > 60 \<and> hits_canPrev st then st\<lparr>index := index st - 1\<rparr>
      else st)"

text \<open>The two nav buttons: \<open>Math.max(0, v - 1)\<close> and \<open>Math.min(maxIndex, v + 1)\<close>.\<close>

definition hits_onClickLeft :: "carousel \<Rightarrow> carousel" where
  "hits_onClickLeft st = st\<lparr>index := max 0 (index st - 1)\<rparr>"

definition hits_onClickRight :: "PressHit list \<Rightarrow> carousel \<Rightarrow> carousel" where
  "hits_onClickRight hits st = st\<lparr>index := min (hits_maxIndex hits st) (index st + 1)\<rparr>"

definition hits_update :: "PressHit list \<Rightarrow> int \<Rightarrow> carousel \<Rightarrow> carousel" where
  "hits_update hits w st =
     (let st' = st\<lparr>viewportW := (if w = 0 then 0 else w)\<rparr>
      in if hits_maxIndex hits st' \<noteq> hits_maxIndex hits st
         then st'\<lparr>index := deck_clamp (index st') 0 (hits_maxIndex hits st')\<rparr>
         else st')"

fun hits_step :: "PressHit list \<Rightarrow> carousel \<Rightarrow> event \<Rightarrow> carousel" where
  "hits_step hits st ClickPrev = hits_onClickLeft st"
| "hits_step hits st ClickNext = hits_onClickRight hits st"
| "hits_step hits st (DragEnd x) = hits_onDragEnd hits x st"
| "hits_step hits st (Resize w) = hits_update hits w st"

definition hits_mount :: "PressHit list \<Rightarrow> carousel" where
  "hits_mount hits =
     initial\<lparr>index := deck_clamp (index initial) 0 (hits_maxIndex hits initial)\<rparr>"

definition hits_run :: "PressHit list \<Rightarrow> event list \<Rightarrow> carousel" where
  "hits_run hits evs = foldl (hits_step hits) (hits_mount hits) evs"

subsection \<open>Photo rail (PhotoRail)\<close>

definition PHOTO_W :: int where
  "PHOTO_W = 260"

definition PHOTO_GAP :: int where
  "PHOTO_GAP = 16"

definition photo_visibleCount :: "int \<Rightarrow> int" where
  "photo_visibleCount vw =
     (if vw = 0 then 1
      else max 1 \<lfloor>real_of_int (vw + PHOTO_GAP) / real_of_int (PHOTO_W + PHOTO_GAP)\<rfloor>)"

definition photo_maxIndex :: "string list \<Rightarrow> carousel \<Rightarrow> int" where
  "photo_maxIndex photoList st = max 0 (int (length photoList) - photo_visibleCount (viewportW st))"

definition photo_canPrev :: "carousel \<Rightarrow> bool" where
  "photo_canPrev st = (index st > 0)"

definition photo_canNext :: "string list \<Rightarrow> carousel \<Rightarrow> bool" where
  "photo_canNext photoList st = (index st < photo_maxIndex photoList st)"

text \<open>
  \<open>if (info.offset.x < -60 && canNext) setIndex((v) => v + 1);
  else if (info.offset.x > 60 && canPrev) setIndex((v) => v - 1);\<close>
\<close>

definition photo_onDragEnd :: "string list \<Rightarrow> real \<Rightarrow> carousel \<Rightarrow> carousel" where
  "photo_onDragEnd photoList x st =
     (if x < - 60 \<and> photo_canNext photoList st then st\<lparr>index := index st + 1\<rparr>
      else if x > 60 \<and> photo_canPrev st then st\<lparr>index := index st - 1\<rparr>
      else st)"

text \<open>The two nav buttons: \<open>Math.max(0, v - 1)\<close> and \<open>Math.min(maxIndex, v + 1)\<close>.\<close>

definition photo_onClickLeft :: "carousel \<Rightarrow> carousel" where
  "photo_onClickLeft st = st\<lparr>index := max 0 (index st - 1)\<rparr>"

definition photo_onClickRight :: "string list \<Rightarrow> carousel \<Rightarrow> carousel" where
  "photo_onClickRight photoList st = st\<lparr>index := min (photo_maxIndex photoList st) (index st + 1)\<rparr>"

definition photo_update :: "string list \<Rightarrow> int \<Rightarrow> carousel \<Rightarrow> carousel" where
  "photo_update photoList w st =
     (let st' = st\<lparr>viewportW := (if w = 0 then 0 else w)\<rparr>
      in if photo_maxIndex photoList st' \<noteq> photo_maxIndex photoList st
         then st'\<lparr>index := deck_clamp (index st') 0 (photo_maxIndex photoList st')\<rparr>
         else st')"

fun photo_step :: "string list \<Rightarrow> carousel \<Rightarrow> event \<Rightarrow> carousel" where
  "photo_step photoList st ClickPrev = photo_onClickLeft st"
| "photo_step photoList st ClickNext = photo_onClickRight photoList st"
| "photo_step photoList st (DragEnd x) = photo_onDragEnd photoList x st"
| "photo_step photoList st (Resize w) = photo_update photoList w st"

definition photo_mount :: "string list \<Rightarrow> carousel" where
  "photo_mount photoList =
     initial\<lparr>index := deck_clamp (index initial) 0 (photo_maxIndex photoList initial)\<rparr>"

definition photo_run :: "string list \<Rightarrow> event list \<Rightarrow> carousel" where
  "photo_run photoList evs = foldl (photo_step photoList) (photo_mount photoList) evs"

section \<open>The pagination model as the specification words it\<close>

text \<open>
  The specification describes one utility, parameterised by item width, gap and item
  count. The definitions of this section follow its wording (they are not taken from
  the code) and serve as the common reference the three copies are compared with.
  \<^item> \<open>computeVisibleCount\<close> returns \<open>max(1, floor((viewportWidth + gap) / (itemWidth + gap)))\<close>;
  \<^item> \<open>computeMaxIndex\<close> returns \<open>max(0, totalItems - visibleCount)\<close>;
  \<^item> \<open>clamp\<close> bounds a value to \<open>[min, max]\<close>;
  \<^item> a step moves the index by one, clamped to \<open>[0, maxIndex]\<close>;
  \<^item> a drag release beyond the threshold of 60 steps once in that direction when that
    step is legal, and does nothing otherwise;
  \<^item> a change of the viewport clamps the index again.
\<close>

record sizing =
  itemWidth :: int
  gap :: int
  totalItems :: int

definition computeVisibleCount :: "int \<Rightarrow> int \<Rightarrow> int \<Rightarrow> int" where
  "computeVisibleCount viewportWidth iw g =
     max 1 \<lfloor>real_of_int (viewportWidth + g) / real_of_int (iw + g)\<rfloor>"

definition computeMaxIndex :: "int \<Rightarrow> int \<Rightarrow> int" where
  "computeMaxIndex n visible = max 0 (n - visible)"

definition spec_clamp :: "int \<Rightarrow> int \<Rightarrow> int \<Rightarrow> int" where
  "spec_clamp v lo hi = (if v < lo then lo else if hi < v then hi else v)"

definition spec_maxIndex :: "sizing \<Rightarrow> carousel \<Rightarrow> int" where
  "spec_maxIndex sz st =
     computeMaxIndex (totalItems sz)
       (computeVisibleCount (viewportW st) (itemWidth sz) (gap sz))"

definition canGoBack :: "carousel \<Rightarrow> bool" where
  "canGoBack st = (0 < index st)"

definition canGoForward :: "sizing \<Rightarrow> carousel \<Rightarrow> bool" where
  "canGoForward sz st = (index st < spec_maxIndex sz st)"

definition stepForward :: "sizing \<Rightarrow> carousel \<Rightarrow> carousel" where
  "stepForward sz st = st\<lparr>index := spec_clamp (index st + 1) 0 (spec_maxIndex sz st)\<rparr>"

definition stepBackward :: "sizing \<Rightarrow> carousel \<Rightarrow> carousel" where
  "stepBackward sz st = st\<lparr>index := spec_clamp (index st - 1) 0 (spec_maxIndex sz st)\<rparr>"

definition onDragRelease :: "sizing \<Rightarrow> real \<Rightarrow> real \<Rightarrow> carousel \<Rightarrow> carousel" where
  "onDragRelease sz offset thresholdPx st =
     (if offset < - thresholdPx \<and> canGoForward sz st then stepForward sz st
      else if thresholdPx < offset \<and> canGoBack st then stepBackward sz st
      else st)"

definition onResize :: "sizing \<Rightarrow> int \<Rightarrow> carousel \<Rightarrow> carousel" where
  "onResize sz w st =
     (let st' = st\<lparr>viewportW := w\<rparr>
      in st'\<lparr>index := spec_clamp (index st') 0 (spec_maxIndex sz st')\<rparr>)"

fun spec_step :: "sizing \<Rightarrow> carousel \<Rightarrow> event \<Rightarrow> carousel" where
  "spec_step sz st ClickPrev = stepBackward sz st"
| "spec_step sz st ClickNext = stepForward sz st"
| "spec_step sz st (DragEnd x) = onDragRelease sz x 60 st"
| "spec_step sz st (Resize w) = onResize sz w st"

definition spec_run :: "sizing \<Rightarrow> event list \<Rightarrow> carousel" where
  "spec_run sz evs = foldl (spec_step sz) initial evs"

text \<open>The sizing each of the three call sites would hand to that utility.\<close>

definition page_sizing :: "PressItem list \<Rightarrow> sizing" where
  "page_sizing items =
     \<lparr>itemWidth = CARD_WIDTH, gap = CARD_GAP, totalItems = pressCount items\<rparr>"

definition hits_sizing :: "PressHit list \<Rightarrow> sizing" where
  "hits_sizing hits =
     \<lparr>itemWidth = HIT_DIAMETER, gap = HIT_GAP, totalItems = int (length hits)\<rparr>"

definition photo_sizing :: "string list \<Rightarrow> sizing" where
  "photo_sizing photoList =
     \<lparr>itemWidth = PHOTO_W, gap = PHOTO_GAP, totalItems = int (length photoList)\<rparr>"

section \<open>Visible count and maximum index\<close>

lemma page_visibleCount_div: "page_visibleCount w = max 1 ((w + 16) div 269)"
  unfolding page_visibleCount_def floor_divide_of_int_eq CARD_WIDTH_def CARD_GAP_def
  by simp

lemma hits_visibleCount_div: "hits_visibleCount w = max 1 ((w + 16) div 88)"
  unfolding hits_visibleCount_def floor_divide_of_int_eq HIT_DIAMETER_def HIT_GAP_def
  by simp

lemma photo_visibleCount_div: "photo_visibleCount w = max 1 ((w + 16) div 276)"
  unfolding photo_visibleCount_def floor_divide_of_int_eq PHOTO_W_def PHOTO_GAP_def
  by simp

lemma floor_px: "\<lfloor>(real_of_int w + 16) / real_of_int d\<rfloor> = (w + 16) div d"
  using floor_divide_of_int_eq [of "w + 16" d, where ?'a = real] by simp

lemma page_visibleCount_ge1: "1 \<le> page_visibleCount w"
  by (simp add: page_visibleCount_def)

lemma hits_visibleCount_ge1: "1 \<le> hits_visibleCount w"
  by (simp add: hits_visibleCount_def)

lemma photo_visibleCount_ge1: "1 \<le> photo_visibleCount w"
  by (simp add: photo_visibleCount_def)

lemma length_pressItems: "length pressItems = 10"
  by (simp add: pressItems_def)

text \<open>
  Claim C2. For every viewport width \<open>w\<close> (in particular every \<open>w \<ge> 0\<close>) each of
  the three carousels computes the visible count
  \<open>max(1, floor((w + gap) / (itemWidth + gap)))\<close> with its own constants (253/16,
  72/16, 260/16). The count is an integer, it is at least 1, and it is 1 at width 0,
  where the code returns early.
\<close>

theorem C2_visibleCount:
  "page_visibleCount w = max 1 \<lfloor>(real_of_int w + 16) / (253 + 16)\<rfloor> \<and>
   hits_visibleCount w = max 1 \<lfloor>(real_of_int w + 16) / (72 + 16)\<rfloor> \<and>
   photo_visibleCount w = max 1 \<lfloor>(real_of_int w + 16) / (260 + 16)\<rfloor> \<and>
   1 \<le> page_visibleCount w \<and> 1 \<le> hits_visibleCount w \<and> 1 \<le> photo_visibleCount w \<and>
   page_visibleCount 0 = 1 \<and> hits_visibleCount 0 = 1 \<and> photo_visibleCount 0 = 1"
  using floor_px [of w 269] floor_px [of w 88] floor_px [of w 276]
  by (simp add: page_visibleCount_div hits_visibleCount_div photo_visibleCount_div)

text \<open>
  Claim C3. In each carousel the maximum index is \<open>max(0, totalItems - visibleCount)\<close>
  and lies between 0 and the item count; the item count is a list length and the
  visible count is at least 1 by construction. With the 10 press items, card width 253,
  gap 16 and viewport width 900 the visible count is 3 and the maximum index is 7.
\<close>

theorem C3_maxIndex:
  "maxPressIndex items st = max 0 (int (length items) - page_visibleCount (viewportW st)) \<and>
   0 \<le> maxPressIndex items st \<and> maxPressIndex items st \<le> int (length items) \<and>
   hits_maxIndex hits st = max 0 (int (length hits) - hits_visibleCount (viewportW st)) \<and>
   0 \<le> hits_maxIndex hits st \<and> hits_maxIndex hits st \<le> int (length hits) \<and>
   photo_maxIndex ps st = max 0 (int (length ps) - photo_visibleCount (viewportW st)) \<and>
   0 \<le> photo_maxIndex ps st \<and> photo_maxIndex ps st \<le> int (length ps) \<and>
   length pressItems = 10 \<and> CARD_WIDTH = 253 \<and> CARD_GAP = 16 \<and>
   page_visibleCount 900 = 3 \<and>
   maxPressIndex pressItems \<lparr>index = i, viewportW = 900\<rparr> = 7"
  using page_visibleCount_ge1 [of "viewportW st"] hits_visibleCount_ge1 [of "viewportW st"]
    photo_visibleCount_ge1 [of "viewportW st"]
  by (simp add: maxPressIndex_def hits_maxIndex_def photo_maxIndex_def pressCount_def
      length_pressItems page_visibleCount_div CARD_WIDTH_def CARD_GAP_def)


subsection \<open>Steps of the press carousel keep the index in range\<close>

lemma maxPressIndex_nonneg: "0 \<le> maxPressIndex items st"
  by (simp add: maxPressIndex_def)

lemma maxPressIndex_index_update: "maxPressIndex items (st\<lparr>index := i\<rparr>) = maxPressIndex items st"
  by (simp add: maxPressIndex_def)

lemma page_update_viewportW: "viewportW (page_update items w st) = w"
  by (simp add: page_update_def Let_def)

lemma page_update_index:
  "index (page_update items w st) =
     (if maxPressIndex items (st\<lparr>viewportW := w\<rparr>) \<noteq> maxPressIndex items st
      then page_clamp (index st) 0 (maxPressIndex items (st\<lparr>viewportW := w\<rparr>))
      else index st)"
  by (simp add: page_update_def Let_def)

lemma page_update_max: "maxPressIndex items (page_update items w st) = maxPressIndex items (st\<lparr>viewportW := w\<rparr>)"
  by (simp add: page_update_def Let_def maxPressIndex_def)

lemma page_step_inv:
  assumes "0 \<le> index st" and "index st \<le> maxPressIndex items st"
  shows "0 \<le> index (page_step items st e) \<and> index (page_step items st e) \<le> maxPressIndex items (page_step items st e)"
proof (cases e)
  case ClickPrev
  with assms show ?thesis
    by (simp add: goPrevPress_def maxPressIndex_index_update)
next
  case ClickNext
  with assms maxPressIndex_nonneg [of items st] show ?thesis
    by (simp add: goNextPress_def maxPressIndex_index_update)
next
  case (DragEnd x)
  with assms maxPressIndex_nonneg [of items st] show ?thesis
    by (simp add: page_onDragEnd_def page_canNext_def page_canPrev_def goPrevPress_def goNextPress_def
        maxPressIndex_index_update)
next
  case (Resize w)
  with assms maxPressIndex_nonneg [of items "st\<lparr>viewportW := w\<rparr>"] show ?thesis
    by (simp add: page_update_index page_update_max page_clamp_def)
qed

lemma page_mount_eq: "page_mount items = initial"
  using maxPressIndex_nonneg [of items initial] by (simp add: page_mount_def page_clamp_def initial_def)

lemma page_foldl_inv:
  "0 \<le> index st \<Longrightarrow> index st \<le> maxPressIndex items st \<Longrightarrow>
   0 \<le> index (foldl (page_step items) st evs) \<and>
   index (foldl (page_step items) st evs) \<le> maxPressIndex items (foldl (page_step items) st evs)"
proof (induction evs arbitrary: st)
  case Nil
  then show ?case by simp
next
  case (Cons e evs)
  from page_step_inv [OF Cons.prems] show ?case
    by (simp add: Cons.IH)
qed

lemma page_run_inv:
  "0 \<le> index (page_run items evs) \<and> index (page_run items evs) \<le> maxPressIndex items (page_run items evs)"
  unfolding page_run_def page_mount_eq
  using maxPressIndex_nonneg [of items initial]
  by (intro page_foldl_inv) (simp_all add: initial_def)

subsection \<open>Steps of the press hits carousel keep the index in range\<close>

lemma hits_maxIndex_nonneg: "0 \<le> hits_maxIndex hits st"
  by (simp add: hits_maxIndex_def)

lemma hits_maxIndex_index_update: "hits_maxIndex hits (st\<lparr>index := i\<rparr>) = hits_maxIndex hits st"
  by (simp add: hits_maxIndex_def)

lemma hits_update_viewportW: "viewportW (hits_update hits w st) = w"
  by (simp add: hits_update_def Let_def)

lemma hits_update_index:
  "index (hits_update hits w st) =
     (if hits_maxIndex hits (st\<lparr>viewportW := w\<rparr>) \<noteq> hits_maxIndex hits st
      then deck_clamp (index st) 0 (hits_maxIndex hits (st\<lparr>viewportW := w\<rparr>))
      else index st)"
  by (simp add: hits_update_def Let_def)

lemma hits_update_max: "hits_maxIndex hits (hits_update hits w st) = hits_maxIndex hits (st\<lparr>viewportW := w\<rparr>)"
  by (simp add: hits_update_def Let_def hits_maxIndex_def)

lemma hits_step_inv:
  assumes "0 \<le> index st" and "index st \<le> hits_maxIndex hits st"
  shows "0 \<le> index (hits_step hits st e) \<and> index (hits_step hits st e) \<le> hits_maxIndex hits (hits_step hits st e)"
proof (cases e)
  case ClickPrev
  with assms show ?thesis
    by (simp add: hits_onClickLeft_def hits_maxIndex_index_update)
next
  case ClickNext
  with assms hits_maxIndex_nonneg [of hits st] show ?thesis
    by (simp add: hits_onClickRight_def hits_maxIndex_index_update)
next
  case (DragEnd x)
  with assms hits_maxIndex_nonneg [of hits st] show ?thesis
    by (simp add: hits_onDragEnd_def hits_canNext_def hits_canPrev_def hits_onClickLeft_def hits_onClickRight_def
        hits_maxIndex_index_update)
next
  case (Resize w)
  with assms hits_maxIndex_nonneg [of hits "st\<lparr>viewportW := w\<rparr>"] show ?thesis
    by (simp add: hits_update_index hits_update_max deck_clamp_def)
qed

lemma hits_mount_eq: "hits_mount hits = initial"
  using hits_maxIndex_nonneg [of hits initial] by (simp add: hits_mount_def deck_clamp_def initial_def)

lemma hits_foldl_inv:
  "0 \<le> index st \<Longrightarrow> index st \<le> hits_maxIndex hits st \<Longrightarrow>
   0 \<le> index (foldl (hits_step hits) st evs) \<and>
   index (foldl (hits_step hits) st evs) \<le> hits_maxIndex hits (foldl (hits_step hits) st evs)"
proof (induction evs arbitrary: st)
  case Nil
  then show ?case by simp
next
  case (Cons e evs)
  from hits_step_inv [OF Cons.prems] show ?case
    by (simp add: Cons.IH)
qed

lemma hits_run_inv:
  "0 \<le> index (hits_run hits evs) \<and> index (hits_run hits evs) \<le> hits_maxIndex hits (hits_run hits evs)"
  unfolding hits_run_def hits_mount_eq
  using hits_maxIndex_nonneg [of hits initial]
  by (intro hits_foldl_inv) (simp_all add: initial_def)

subsection \<open>Steps of the photo carousel keep the index in range\<close>

lemma photo_maxIndex_nonneg: "0 \<le> photo_maxIndex ps st"
  by (simp add: photo_maxIndex_def)

lemma photo_maxIndex_index_update: "photo_maxIndex ps (st\<lparr>index := i\<rparr>) = photo_maxIndex ps st"
  by (simp add: photo_maxIndex_def)

lemma photo_update_viewportW: "viewportW (photo_update ps w st) = w"
  by (simp add: photo_update_def Let_def)

lemma photo_update_index:
  "index (photo_update ps w st) =
     (if photo_maxIndex ps (st\<lparr>viewportW := w\<rparr>) \<noteq> photo_maxIndex ps st
      then deck_clamp (index st) 0 (photo_maxIndex ps (st\<lparr>viewportW := w\<rparr>))
      else index st)"
  by (simp add: photo_update_def Let_def)

lemma photo_update_max: "photo_maxIndex ps (photo_update ps w st) = photo_maxIndex ps (st\<lparr>viewportW := w\<rparr>)"
  by (simp add: photo_update_def Let_def photo_maxIndex_def)

lemma photo_step_inv:
  assumes "0 \<le> index st" and "index st \<le> photo_maxIndex ps st"
  shows "0 \<le> index (photo_step ps st e) \<and> index (photo_step ps st e) \<le> photo_maxIndex ps (photo_step ps st e)"
proof (cases e)
  case ClickPrev
  with assms show ?thesis
    by (simp add: photo_onClickLeft_def photo_maxIndex_index_update)
next
  case ClickNext
  with assms photo_maxIndex_nonneg [of ps st] show ?thesis
    by (simp add: photo_onClickRight_def photo_maxIndex_index_update)
next
  case (DragEnd x)
  with assms photo_maxIndex_nonneg [of ps st] show ?thesis
    by (simp add: photo_onDragEnd_def photo_canNext_def photo_canPrev_def photo_onClickLeft_def photo_onClickRight_def
        photo_maxIndex_index_update)
next
  case (Resize w)
  with assms photo_maxIndex_nonneg [of ps "st\<lparr>viewportW := w\<rparr>"] show ?thesis
    by (simp add: photo_update_index photo_update_max deck_clamp_def)
qed

lemma photo_mount_eq: "photo_mount ps = initial"
  using photo_maxIndex_nonneg [of ps initial] by (simp add: photo_mount_def deck_clamp_def initial_def)

lemma photo_foldl_inv:
  "0 \<le> index st \<Longrightarrow> index st \<le> photo_maxIndex ps st \<Longrightarrow>
   0 \<le> index (foldl (photo_step ps) st evs) \<and>
   index (foldl (photo_step ps) st evs) \<le> photo_maxIndex ps (foldl (photo_step ps) st evs)"
proof (induction evs arbitrary: st)
  case Nil
  then show ?case by simp
next
  case (Cons e evs)
  from photo_step_inv [OF Cons.prems] show ?case
    by (simp add: Cons.IH)
qed

lemma photo_run_inv:
  "0 \<le> index (photo_run ps evs) \<and> index (photo_run ps evs) \<le> photo_maxIndex ps (photo_run ps evs)"
  unfolding photo_run_def photo_mount_eq
  using photo_maxIndex_nonneg [of ps initial]
  by (intro photo_foldl_inv) (simp_all add: initial_def)

section \<open>The index stays in range\<close>

text \<open>
  Claim C1. For each of the three carousels, any item list and any sequence of nav
  clicks, drag releases and viewport measurements processed after mount, the index
  satisfies \<open>0 \<le> index \<le> maxIndex\<close> in the resulting state; as every prefix of an
  event sequence is an event sequence, this holds after each event. A measurement that
  changes the maximum clamps the index: the press carousel at width 900 stepped forward
  to index 7 (maximum 7) and then measured at width 1600 (maximum 4) ends at index 4.
\<close>

theorem C1_index_in_range:
  "(0 \<le> index (page_run items evs) \<and>
    index (page_run items evs) \<le> maxPressIndex items (page_run items evs)) \<and>
   (0 \<le> index (hits_run hits evs) \<and>
    index (hits_run hits evs) \<le> hits_maxIndex hits (hits_run hits evs)) \<and>
   (0 \<le> index (photo_run ps evs) \<and>
    index (photo_run ps evs) \<le> photo_maxIndex ps (photo_run ps evs)) \<and>
   page_run pressItems (Resize 900 # replicate 7 ClickNext) = \<lparr>index = 7, viewportW = 900\<rparr> \<and>
   maxPressIndex pressItems \<lparr>index = 7, viewportW = 1600\<rparr> = 4 \<and>
   page_run pressItems (Resize 900 # replicate 7 ClickNext @ [Resize 1600]) =
     \<lparr>index = 4, viewportW = 1600\<rparr>"
proof -
  have m0: "maxPressIndex pressItems initial = 9"
    by (simp add: maxPressIndex_def pressCount_def length_pressItems initial_def
        page_visibleCount_div)
  have m900: "\<And>i. maxPressIndex pressItems \<lparr>index = i, viewportW = 900\<rparr> = 7"
    by (simp add: maxPressIndex_def pressCount_def length_pressItems page_visibleCount_div)
  have m1600: "\<And>i. maxPressIndex pressItems \<lparr>index = i, viewportW = 1600\<rparr> = 4"
    by (simp add: maxPressIndex_def pressCount_def length_pressItems page_visibleCount_div)
  have hp: "hasPress pressItems"
    by (simp add: hasPress_def pressCount_def length_pressItems)
  have r1: "page_step pressItems initial (Resize 900) = \<lparr>index = 0, viewportW = 900\<rparr>"
    by (simp add: page_update_def Let_def m0 m900 initial_def page_clamp_def)
  have nx: "\<And>i. goNextPress pressItems \<lparr>index = i, viewportW = 900\<rparr> =
      \<lparr>index = min 7 (i + 1), viewportW = 900\<rparr>"
    by (simp add: goNextPress_def hp m900)
  have r2: "foldl (page_step pressItems) \<lparr>index = 0, viewportW = 900\<rparr> (replicate 7 ClickNext) =
      \<lparr>index = 7, viewportW = 900\<rparr>"
    by (simp add: numeral_eq_Suc nx)
  have r3: "page_step pressItems \<lparr>index = 7, viewportW = 900\<rparr> (Resize 1600) =
      \<lparr>index = 4, viewportW = 1600\<rparr>"
    by (simp add: page_update_def Let_def m900 m1600 page_clamp_def)
  have run1: "page_run pressItems (Resize 900 # replicate 7 ClickNext) =
      \<lparr>index = 7, viewportW = 900\<rparr>"
    by (simp only: page_run_def page_mount_eq foldl_Cons r1 r2)
  have run2: "page_run pressItems (Resize 900 # replicate 7 ClickNext @ [Resize 1600]) =
      \<lparr>index = 4, viewportW = 1600\<rparr>"
    by (simp only: page_run_def page_mount_eq foldl_Cons foldl_append foldl_Nil r1 r2 r3)
  show ?thesis
    using page_run_inv [of items evs] hits_run_inv [of hits evs] photo_run_inv [of ps evs]
      m1600 [of 7]
    by (simp only: run1 run2 simp_thms)
qed


section \<open>Boundaries and drag release\<close>

lemma carousel_index_same: "st\<lparr>index := index st\<rparr> = (st::carousel)"
  by simp

text \<open>
  Claim C4. In every carousel state of each of the three carousels: at index 0 the
  backward step returns the state unchanged and \<open>canPrev\<close> is false; at
  \<open>index = maxIndex\<close> the forward step returns the state unchanged and \<open>canNext\<close> is
  false.
\<close>

theorem C4_boundary_steps:
  "(index st = 0 \<longrightarrow> goPrevPress items st = st \<and> \<not> page_canPrev st) \<and>
   (index st = maxPressIndex items st \<longrightarrow> goNextPress items st = st \<and> \<not> page_canNext items st) \<and>
   (index st = 0 \<longrightarrow> hits_onClickLeft st = st \<and> \<not> hits_canPrev st) \<and>
   (index st = hits_maxIndex hits st \<longrightarrow> hits_onClickRight hits st = st \<and> \<not> hits_canNext hits st) \<and>
   (index st = 0 \<longrightarrow> photo_onClickLeft st = st \<and> \<not> photo_canPrev st) \<and>
   (index st = photo_maxIndex ps st \<longrightarrow> photo_onClickRight ps st = st \<and> \<not> photo_canNext ps st)"
proof -
  have z: "index st = 0 \<Longrightarrow> st\<lparr>index := 0\<rparr> = st"
    using carousel_index_same [of st] by simp
  have m: "\<And>k. index st = k \<Longrightarrow> st\<lparr>index := k\<rparr> = st"
    using carousel_index_same [of st] by simp
  show ?thesis
    by (simp add: goPrevPress_def goNextPress_def page_canPrev_def page_canNext_def
        hits_onClickLeft_def hits_onClickRight_def hits_canPrev_def hits_canNext_def
        photo_onClickLeft_def photo_onClickRight_def photo_canPrev_def photo_canNext_def z m)
qed

theorem C4_boundary_steps_witness:
  "goPrevPress pressItems \<lparr>index = 0, viewportW = 900\<rparr> = \<lparr>index = 0, viewportW = 900\<rparr> \<and>
   \<not> page_canPrev \<lparr>index = 0, viewportW = 900\<rparr> \<and>
   maxPressIndex pressItems \<lparr>index = 7, viewportW = 900\<rparr> = 7 \<and>
   goNextPress pressItems \<lparr>index = 7, viewportW = 900\<rparr> = \<lparr>index = 7, viewportW = 900\<rparr> \<and>
   \<not> page_canNext pressItems \<lparr>index = 7, viewportW = 900\<rparr>"
proof -
  have m900: "maxPressIndex pressItems \<lparr>index = 7, viewportW = 900\<rparr> = 7"
    by (simp add: maxPressIndex_def pressCount_def length_pressItems page_visibleCount_div)
  show ?thesis
    using C4_boundary_steps [of "\<lparr>index = 0, viewportW = 900\<rparr>" pressItems]
      C4_boundary_steps [of "\<lparr>index = 7, viewportW = 900\<rparr>" pressItems] m900
    by simp
qed

text \<open>
  Claim C5. A drag release with horizontal offset \<open>d\<close> moves the index forward by
  exactly 1 when \<open>d < -60\<close> and \<open>index < maxIndex\<close>, backward by exactly 1 when
  \<open>d > 60\<close> and \<open>index > 0\<close>, and leaves the state unchanged otherwise. For the two
  rails this holds in every state. The press carousel steps through \<open>goNextPress\<close>
  and \<open>goPrevPress\<close>, which do nothing without press items; it holds there in every
  state when there are press items (as on the page, which has 10), and for any item
  list in the states with \<open>0 \<le> index \<le> maxIndex\<close>, the only ones the carousel reaches.
\<close>

theorem C5_drag_release:
  "(hasPress items \<or> 0 \<le> index st \<and> index st \<le> maxPressIndex items st \<longrightarrow>
      page_onDragEnd items d st =
        st\<lparr>index := (if d < - 60 \<and> index st < maxPressIndex items st then index st + 1
                     else if 60 < d \<and> 0 < index st then index st - 1
                     else index st)\<rparr>) \<and>
   hits_onDragEnd hits d st =
     st\<lparr>index := (if d < - 60 \<and> index st < hits_maxIndex hits st then index st + 1
                  else if 60 < d \<and> 0 < index st then index st - 1
                  else index st)\<rparr> \<and>
   photo_onDragEnd ps d st =
     st\<lparr>index := (if d < - 60 \<and> index st < photo_maxIndex ps st then index st + 1
                  else if 60 < d \<and> 0 < index st then index st - 1
                  else index st)\<rparr>"
proof -
  have hp: "0 \<le> index st \<Longrightarrow> index st < maxPressIndex items st \<Longrightarrow> hasPress items"
    using page_visibleCount_ge1 [of "viewportW st"]
    by (simp add: maxPressIndex_def hasPress_def)
  have hp': "0 < index st \<Longrightarrow> index st \<le> maxPressIndex items st \<Longrightarrow> hasPress items"
    using page_visibleCount_ge1 [of "viewportW st"]
    by (simp add: maxPressIndex_def hasPress_def)
  have page: "hasPress items \<or> 0 \<le> index st \<and> index st \<le> maxPressIndex items st \<longrightarrow>
      page_onDragEnd items d st =
        st\<lparr>index := (if d < - 60 \<and> index st < maxPressIndex items st then index st + 1
                     else if 60 < d \<and> 0 < index st then index st - 1
                     else index st)\<rparr>"
    using hp hp'
    by (auto simp add: page_onDragEnd_def page_canNext_def page_canPrev_def goNextPress_def
        goPrevPress_def)
  have hits: "hits_onDragEnd hits d st =
     st\<lparr>index := (if d < - 60 \<and> index st < hits_maxIndex hits st then index st + 1
                  else if 60 < d \<and> 0 < index st then index st - 1
                  else index st)\<rparr>"
    by (simp add: hits_onDragEnd_def hits_canNext_def hits_canPrev_def)
  have photo: "photo_onDragEnd ps d st =
     st\<lparr>index := (if d < - 60 \<and> index st < photo_maxIndex ps st then index st + 1
                  else if 60 < d \<and> 0 < index st then index st - 1
                  else index st)\<rparr>"
    by (simp add: photo_onDragEnd_def photo_canNext_def photo_canPrev_def)
  from page hits photo show ?thesis by (intro conjI)
qed

text \<open>
  The scenario of the specification: offset \<open>-80\<close> at index 2 with maximum 7 gives
  index 3, offset \<open>-40\<close> leaves index 2; at the boundaries a drag changes nothing.
\<close>

theorem C5_drag_release_witness:
  "maxPressIndex pressItems \<lparr>index = 2, viewportW = 900\<rparr> = 7 \<and>
   page_onDragEnd pressItems (- 80) \<lparr>index = 2, viewportW = 900\<rparr> = \<lparr>index = 3, viewportW = 900\<rparr> \<and>
   page_onDragEnd pressItems (- 40) \<lparr>index = 2, viewportW = 900\<rparr> = \<lparr>index = 2, viewportW = 900\<rparr> \<and>
   page_onDragEnd pressItems 80 \<lparr>index = 2, viewportW = 900\<rparr> = \<lparr>index = 1, viewportW = 900\<rparr> \<and>
   page_onDragEnd pressItems (- 80) \<lparr>index = 7, viewportW = 900\<rparr> = \<lparr>index = 7, viewportW = 900\<rparr> \<and>
   page_onDragEnd pressItems 80 \<lparr>index = 0, viewportW = 900\<rparr> = \<lparr>index = 0, viewportW = 900\<rparr>"
proof -
  have m900: "\<And>i. maxPressIndex pressItems \<lparr>index = i, viewportW = 900\<rparr> = 7"
    by (simp add: maxPressIndex_def pressCount_def length_pressItems page_visibleCount_div)
  show ?thesis
    using C5_drag_release [where st = "\<lparr>index = 2, viewportW = 900\<rparr>" and items = pressItems and d = "- 80"]
      C5_drag_release [where st = "\<lparr>index = 2, viewportW = 900\<rparr>" and items = pressItems and d = "- 40"]
      C5_drag_release [where st = "\<lparr>index = 2, viewportW = 900\<rparr>" and items = pressItems and d = "80"]
      C5_drag_release [where st = "\<lparr>index = 7, viewportW = 900\<rparr>" and items = pressItems and d = "- 80"]
      C5_drag_release [where st = "\<lparr>index = 0, viewportW = 900\<rparr>" and items = pressItems and d = "80"]
    by (simp add: m900)
qed

section \<open>The three copies against the parameterised model\<close>

lemma spec_clamp_eq: "0 \<le> hi \<Longrightarrow> spec_clamp v 0 hi = min hi (max 0 v)"
  by (simp add: spec_clamp_def)

lemma computeVisibleCount_zero:
  "0 < iw \<Longrightarrow> 0 \<le> g \<Longrightarrow> computeVisibleCount 0 iw g = 1"
  unfolding computeVisibleCount_def floor_divide_of_int_eq
  by (simp add: div_pos_pos_trivial)

lemma page_visibleCount_spec: "page_visibleCount w = computeVisibleCount w CARD_WIDTH CARD_GAP"
  using computeVisibleCount_zero [of CARD_WIDTH CARD_GAP]
  by (simp add: page_visibleCount_def computeVisibleCount_def CARD_WIDTH_def CARD_GAP_def)

lemma hits_visibleCount_spec: "hits_visibleCount w = computeVisibleCount w HIT_DIAMETER HIT_GAP"
  using computeVisibleCount_zero [of HIT_DIAMETER HIT_GAP]
  by (simp add: hits_visibleCount_def computeVisibleCount_def HIT_DIAMETER_def HIT_GAP_def)

lemma photo_visibleCount_spec: "photo_visibleCount w = computeVisibleCount w PHOTO_W PHOTO_GAP"
  using computeVisibleCount_zero [of PHOTO_W PHOTO_GAP]
  by (simp add: photo_visibleCount_def computeVisibleCount_def PHOTO_W_def PHOTO_GAP_def)

lemma maxPressIndex_spec: "maxPressIndex items st = spec_maxIndex (page_sizing items) st"
  by (simp add: maxPressIndex_def spec_maxIndex_def computeMaxIndex_def page_sizing_def
      page_visibleCount_spec)

lemma hits_maxIndex_spec: "hits_maxIndex hits st = spec_maxIndex (hits_sizing hits) st"
  by (simp add: hits_maxIndex_def spec_maxIndex_def computeMaxIndex_def hits_sizing_def
      hits_visibleCount_spec)

lemma photo_maxIndex_spec: "photo_maxIndex ps st = spec_maxIndex (photo_sizing ps) st"
  by (simp add: photo_maxIndex_def spec_maxIndex_def computeMaxIndex_def photo_sizing_def
      photo_visibleCount_spec)

lemma page_step_spec:
  assumes "0 \<le> index st" and "index st \<le> maxPressIndex items st"
  shows "page_step items st e = spec_step (page_sizing items) st e"
proof (cases e)
  case ClickPrev
  show ?thesis
  proof (cases "hasPress items")
    case True
    with assms ClickPrev show ?thesis
      by (simp add: goPrevPress_def stepBackward_def spec_clamp_def maxPressIndex_spec)
  next
    case False
    then have "maxPressIndex items st = 0"
      using page_visibleCount_ge1 [of "viewportW st"]
      by (simp add: hasPress_def maxPressIndex_def)
    with assms have "index st = 0" by simp
    with False ClickPrev \<open>maxPressIndex items st = 0\<close> show ?thesis
      using carousel_index_same [of st]
      by (simp add: goPrevPress_def stepBackward_def spec_clamp_def
          maxPressIndex_spec [symmetric])
  qed
next
  case ClickNext
  show ?thesis
  proof (cases "hasPress items")
    case True
    with assms ClickNext show ?thesis
      by (simp add: goNextPress_def stepForward_def spec_clamp_def maxPressIndex_spec min_def)
  next
    case False
    then have "maxPressIndex items st = 0"
      using page_visibleCount_ge1 [of "viewportW st"]
      by (simp add: hasPress_def maxPressIndex_def)
    with assms have "index st = 0" by simp
    with False ClickNext \<open>maxPressIndex items st = 0\<close> show ?thesis
      using carousel_index_same [of st]
      by (simp add: goNextPress_def stepForward_def spec_clamp_def
          maxPressIndex_spec [symmetric])
  qed
next
  case (DragEnd x)
  have hp: "index st < maxPressIndex items st \<Longrightarrow> hasPress items"
    using assms(1) page_visibleCount_ge1 [of "viewportW st"]
    by (simp add: maxPressIndex_def hasPress_def)
  have hp': "0 < index st \<Longrightarrow> hasPress items"
    using assms(2) page_visibleCount_ge1 [of "viewportW st"]
    by (simp add: maxPressIndex_def hasPress_def)
  from assms DragEnd hp hp' show ?thesis
    by (auto simp add: page_onDragEnd_def onDragRelease_def page_canNext_def page_canPrev_def
        canGoForward_def canGoBack_def goNextPress_def goPrevPress_def stepForward_def
        stepBackward_def spec_clamp_def maxPressIndex_spec [symmetric])
next
  case (Resize w)
  with assms maxPressIndex_nonneg [of items "st\<lparr>viewportW := w\<rparr>"] show ?thesis
    by (auto simp add: page_update_def onResize_def Let_def page_clamp_def spec_clamp_def
        maxPressIndex_spec [symmetric] maxPressIndex_index_update)
qed


lemma page_foldl_spec:
  "0 \<le> index st \<Longrightarrow> index st \<le> maxPressIndex items st \<Longrightarrow>
   foldl (page_step items) st evs = foldl (spec_step (page_sizing items)) st evs"
proof (induction evs arbitrary: st)
  case Nil
  show ?case by simp
next
  case (Cons e evs)
  from page_step_inv [OF Cons.prems, of e] page_step_spec [OF Cons.prems, of e]
  show ?case
    using Cons.IH [of "page_step items st e"] by simp
qed

lemma page_run_spec: "page_run items evs = spec_run (page_sizing items) evs"
  unfolding page_run_def spec_run_def page_mount_eq
  using maxPressIndex_nonneg [of items initial]
  by (intro page_foldl_spec) (simp_all add: initial_def)

lemma hits_step_spec:
  assumes "0 \<le> index st" and "index st \<le> hits_maxIndex hits st"
  shows "hits_step hits st e = spec_step (hits_sizing hits) st e"
proof (cases e)
  case ClickPrev
  with assms show ?thesis
    by (simp add: hits_onClickLeft_def stepBackward_def spec_clamp_def
        hits_maxIndex_spec [symmetric])
next
  case ClickNext
  with assms show ?thesis
    by (simp add: hits_onClickRight_def stepForward_def spec_clamp_def
        hits_maxIndex_spec [symmetric] min_def)
next
  case (DragEnd x)
  with assms show ?thesis
    by (auto simp add: hits_onDragEnd_def onDragRelease_def hits_canNext_def hits_canPrev_def
        canGoForward_def canGoBack_def stepForward_def stepBackward_def spec_clamp_def
        hits_maxIndex_spec [symmetric])
next
  case (Resize w)
  with assms hits_maxIndex_nonneg [of hits "st\<lparr>viewportW := w\<rparr>"] show ?thesis
    by (auto simp add: hits_update_def onResize_def Let_def deck_clamp_def spec_clamp_def
        hits_maxIndex_spec [symmetric] hits_maxIndex_index_update)
qed

lemma hits_foldl_spec:
  "0 \<le> index st \<Longrightarrow> index st \<le> hits_maxIndex hits st \<Longrightarrow>
   foldl (hits_step hits) st evs = foldl (spec_step (hits_sizing hits)) st evs"
proof (induction evs arbitrary: st)
  case Nil
  show ?case by simp
next
  case (Cons e evs)
  from hits_step_inv [OF Cons.prems, of e] hits_step_spec [OF Cons.prems, of e]
  show ?case
    using Cons.IH [of "hits_step hits st e"] by simp
qed

lemma hits_run_spec: "hits_run hits evs = spec_run (hits_sizing hits) evs"
  unfolding hits_run_def spec_run_def hits_mount_eq
  using hits_maxIndex_nonneg [of hits initial]
  by (intro hits_foldl_spec) (simp_all add: initial_def)

lemma photo_step_spec:
  assumes "0 \<le> index st" and "index st \<le> photo_maxIndex ps st"
  shows "photo_step ps st e = spec_step (photo_sizing ps) st e"
proof (cases e)
  case ClickPrev
  with assms show ?thesis
    by (simp add: photo_onClickLeft_def stepBackward_def spec_clamp_def
        photo_maxIndex_spec [symmetric])
next
  case ClickNext
  with assms show ?thesis
    by (simp add: photo_onClickRight_def stepForward_def spec_clamp_def
        photo_maxIndex_spec [symmetric] min_def)
next
  case (DragEnd x)
  with assms show ?thesis
    by (auto simp add: photo_onDragEnd_def onDragRelease_def photo_canNext_def photo_canPrev_def
        canGoForward_def canGoBack_def stepForward_def stepBackward_def spec_clamp_def
        photo_maxIndex_spec [symmetric])
next
  case (Resize w)
  with assms photo_maxIndex_nonneg [of ps "st\<lparr>viewportW := w\<rparr>"] show ?thesis
    by (auto simp add: photo_update_def onResize_def Let_def deck_clamp_def spec_clamp_def
        photo_maxIndex_spec [symmetric] photo_maxIndex_index_update)
qed

lemma photo_foldl_spec:
  "0 \<le> index st \<Longrightarrow> index st \<le> photo_maxIndex ps st \<Longrightarrow>
   foldl (photo_step ps) st evs = foldl (spec_step (photo_sizing ps)) st evs"
proof (induction evs arbitrary: st)
  case Nil
  show ?case by simp
next
  case (Cons e evs)
  from photo_step_inv [OF Cons.prems, of e] photo_step_spec [OF Cons.prems, of e]
  show ?case
    using Cons.IH [of "photo_step ps st e"] by simp
qed

lemma photo_run_spec: "photo_run ps evs = spec_run (photo_sizing ps) evs"
  unfolding photo_run_def spec_run_def photo_mount_eq
  using photo_maxIndex_nonneg [of ps initial]
  by (intro photo_foldl_spec) (simp_all add: initial_def)

text \<open>
  Claim C9. The three copies of the pagination logic are instances of one parameterised
  model: each copy's visible count, maximum index and boundary flags equal those of the
  model at the copy's item width, gap and item count, and for every event sequence
  (nav clicks, drag releases, viewport measurements) each copy reaches the same state as
  the model does. So copies given the same sizing, item count, viewport widths and events
  compute identical results; they differ only in the constants 253/16, 72/16 and 260/16.
\<close>

theorem C9_copies_agree:
  "page_visibleCount w = computeVisibleCount w CARD_WIDTH CARD_GAP \<and>
   hits_visibleCount w = computeVisibleCount w HIT_DIAMETER HIT_GAP \<and>
   photo_visibleCount w = computeVisibleCount w PHOTO_W PHOTO_GAP \<and>
   maxPressIndex items st = spec_maxIndex (page_sizing items) st \<and>
   hits_maxIndex hits st = spec_maxIndex (hits_sizing hits) st \<and>
   photo_maxIndex ps st = spec_maxIndex (photo_sizing ps) st \<and>
   page_canPrev st = canGoBack st \<and> hits_canPrev st = canGoBack st \<and>
   photo_canPrev st = canGoBack st \<and>
   page_canNext items st = canGoForward (page_sizing items) st \<and>
   hits_canNext hits st = canGoForward (hits_sizing hits) st \<and>
   photo_canNext ps st = canGoForward (photo_sizing ps) st \<and>
   page_run items evs = spec_run (page_sizing items) evs \<and>
   hits_run hits evs = spec_run (hits_sizing hits) evs \<and>
   photo_run ps evs = spec_run (photo_sizing ps) evs \<and>
   page_sizing items = \<lparr>itemWidth = 253, gap = 16, totalItems = int (length items)\<rparr> \<and>
   hits_sizing hits = \<lparr>itemWidth = 72, gap = 16, totalItems = int (length hits)\<rparr> \<and>
   photo_sizing ps = \<lparr>itemWidth = 260, gap = 16, totalItems = int (length ps)\<rparr>"
proof -
  have flags: "page_canPrev st = canGoBack st \<and> hits_canPrev st = canGoBack st \<and>
      photo_canPrev st = canGoBack st \<and>
      page_canNext items st = canGoForward (page_sizing items) st \<and>
      hits_canNext hits st = canGoForward (hits_sizing hits) st \<and>
      photo_canNext ps st = canGoForward (photo_sizing ps) st"
    by (simp add: page_canPrev_def hits_canPrev_def photo_canPrev_def canGoBack_def
        page_canNext_def hits_canNext_def photo_canNext_def canGoForward_def
        maxPressIndex_spec hits_maxIndex_spec photo_maxIndex_spec)
  have sizes: "page_sizing items = \<lparr>itemWidth = 253, gap = 16, totalItems = int (length items)\<rparr> \<and>
      hits_sizing hits = \<lparr>itemWidth = 72, gap = 16, totalItems = int (length hits)\<rparr> \<and>
      photo_sizing ps = \<lparr>itemWidth = 260, gap = 16, totalItems = int (length ps)\<rparr>"
    by (simp add: page_sizing_def hits_sizing_def photo_sizing_def pressCount_def
        CARD_WIDTH_def CARD_GAP_def HIT_DIAMETER_def HIT_GAP_def PHOTO_W_def PHOTO_GAP_def)
  show ?thesis
    using flags sizes page_visibleCount_spec [of w] hits_visibleCount_spec [of w]
      photo_visibleCount_spec [of w] maxPressIndex_spec [of items st]
      hits_maxIndex_spec [of hits st] photo_maxIndex_spec [of ps st]
      page_run_spec [of items evs] hits_run_spec [of hits evs] photo_run_spec [of ps evs]
    by (intro conjI) (simp_all only:)
qed

section \<open>Empty item list\<close>

lemma empty_index_zero:
  "0 \<le> index st \<Longrightarrow> index st \<le> 0 \<Longrightarrow> st\<lparr>index := 0\<rparr> = (st::carousel)"
  using carousel_index_same [of st] by simp

lemma maxPressIndex_empty: "maxPressIndex [] st = 0"
  using page_visibleCount_ge1 [of "viewportW st"]
  by (simp add: maxPressIndex_def pressCount_def)

lemma hits_maxIndex_empty: "hits_maxIndex [] st = 0"
  using hits_visibleCount_ge1 [of "viewportW st"]
  by (simp add: hits_maxIndex_def)

lemma photo_maxIndex_empty: "photo_maxIndex [] st = 0"
  using photo_visibleCount_ge1 [of "viewportW st"]
  by (simp add: photo_maxIndex_def)

lemma page_mounted_run_empty: "page_mounted_run [] evs = initial"
proof -
  have "foldl (page_mounted_step []) st evs = st" for st
    by (induction evs) (simp_all add: page_mounted_step_def hasPress_def pressCount_def)
  then show ?thesis
    by (simp add: page_mounted_run_def page_mount_eq)
qed

lemma page_mounted_run_nonempty:
  "hasPress items \<Longrightarrow> page_mounted_run items evs = page_run items evs"
proof -
  assume h: "hasPress items"
  have "foldl (page_mounted_step items) st evs = foldl (page_step items) st evs" for st
    by (induction evs arbitrary: st) (simp_all add: page_mounted_step_def h)
  then show ?thesis
    by (simp add: page_mounted_run_def page_run_def)
qed

lemma entry_rail_nonempty: "entry_rail item \<noteq> Some []"
  by (simp add: entry_rail_def)

lemma entry_photoRail_nonempty: "entry_photoRail item \<noteq> Some []"
  by (simp add: entry_photoRail_def)

text \<open>
  Claim C8. An empty item list can only reach the press carousel of the page: the two
  rails are mounted by \<open>TimelineEntry\<close> under \<open>pressHits.length > 0\<close> and
  \<open>photos.length > 0\<close>, so the list a rail receives is never empty. The page with no
  press items stays in its mounted state whatever happens, and there the visible count
  is 1, the maximum index is 0, the index is 0, both nav flags are false, and the
  backward step, the forward step and every drag release return the state unchanged.
  The handlers by themselves agree wherever an empty list is put into them: in each of
  the three copies, after any sequence of handler runs, the maximum index and the index
  are 0, both flags are false and every step is a no-op, and the visible count of an
  unmeasured viewport is 1.
\<close>

theorem C8_empty_list:
  "page_mounted_run [] evs = initial \<and>
   page_visibleCount (viewportW (page_mounted_run [] evs)) = 1 \<and>
   maxPressIndex [] (page_mounted_run [] evs) = 0 \<and>
   index (page_mounted_run [] evs) = 0 \<and>
   \<not> page_canPrev (page_mounted_run [] evs) \<and>
   \<not> page_canNext [] (page_mounted_run [] evs) \<and>
   goPrevPress [] (page_mounted_run [] evs) = page_mounted_run [] evs \<and>
   goNextPress [] (page_mounted_run [] evs) = page_mounted_run [] evs \<and>
   page_onDragEnd [] d (page_mounted_run [] evs) = page_mounted_run [] evs \<and>
   entry_rail item \<noteq> Some [] \<and> entry_photoRail item \<noteq> Some [] \<and>
   maxPressIndex [] st = 0 \<and> hits_maxIndex [] st = 0 \<and> photo_maxIndex [] st = 0 \<and>
   index (page_run [] evs) = 0 \<and> index (hits_run [] evs) = 0 \<and> index (photo_run [] evs) = 0 \<and>
   \<not> page_canPrev (page_run [] evs) \<and> \<not> page_canNext [] (page_run [] evs) \<and>
   \<not> hits_canPrev (hits_run [] evs) \<and> \<not> hits_canNext [] (hits_run [] evs) \<and>
   \<not> photo_canPrev (photo_run [] evs) \<and> \<not> photo_canNext [] (photo_run [] evs) \<and>
   goPrevPress [] (page_run [] evs) = page_run [] evs \<and>
   goNextPress [] (page_run [] evs) = page_run [] evs \<and>
   page_onDragEnd [] d (page_run [] evs) = page_run [] evs \<and>
   hits_onClickLeft (hits_run [] evs) = hits_run [] evs \<and>
   hits_onClickRight [] (hits_run [] evs) = hits_run [] evs \<and>
   hits_onDragEnd [] d (hits_run [] evs) = hits_run [] evs \<and>
   photo_onClickLeft (photo_run [] evs) = photo_run [] evs \<and>
   photo_onClickRight [] (photo_run [] evs) = photo_run [] evs \<and>
   photo_onDragEnd [] d (photo_run [] evs) = photo_run [] evs \<and>
   page_visibleCount 0 = 1 \<and> hits_visibleCount 0 = 1 \<and> photo_visibleCount 0 = 1"
proof -
  note m1 = maxPressIndex_empty and m2 = hits_maxIndex_empty and m3 = photo_maxIndex_empty
  have vc0: "page_visibleCount 0 = 1 \<and> hits_visibleCount 0 = 1 \<and> photo_visibleCount 0 = 1"
    by (simp add: page_visibleCount_def hits_visibleCount_def photo_visibleCount_def)
  have mounted: "page_visibleCount (viewportW (page_mounted_run [] evs)) = 1 \<and>
      maxPressIndex [] (page_mounted_run [] evs) = 0 \<and>
      index (page_mounted_run [] evs) = 0 \<and>
      \<not> page_canPrev (page_mounted_run [] evs) \<and>
      \<not> page_canNext [] (page_mounted_run [] evs) \<and>
      goPrevPress [] (page_mounted_run [] evs) = page_mounted_run [] evs \<and>
      goNextPress [] (page_mounted_run [] evs) = page_mounted_run [] evs \<and>
      page_onDragEnd [] d (page_mounted_run [] evs) = page_mounted_run [] evs"
    unfolding page_mounted_run_empty
    using vc0
    by (simp add: initial_def page_canPrev_def page_canNext_def goPrevPress_def
        goNextPress_def page_onDragEnd_def hasPress_def pressCount_def m1)
  have i1: "index (page_run [] evs) = 0"
    using page_run_inv [of "[]" evs] by (simp add: m1)
  have i2: "index (hits_run [] evs) = 0"
    using hits_run_inv [of "[]" evs] by (simp add: m2)
  have i3: "index (photo_run [] evs) = 0"
    using photo_run_inv [of "[]" evs] by (simp add: m3)
  have z2: "(hits_run [] evs)\<lparr>index := 0\<rparr> = hits_run [] evs"
    using i2 by (intro empty_index_zero) simp_all
  have z3: "(photo_run [] evs)\<lparr>index := 0\<rparr> = photo_run [] evs"
    using i3 by (intro empty_index_zero) simp_all
  have page: "\<not> page_canPrev (page_run [] evs) \<and> \<not> page_canNext [] (page_run [] evs) \<and>
      goPrevPress [] (page_run [] evs) = page_run [] evs \<and>
      goNextPress [] (page_run [] evs) = page_run [] evs \<and>
      page_onDragEnd [] d (page_run [] evs) = page_run [] evs"
    by (simp add: page_canPrev_def page_canNext_def goPrevPress_def goNextPress_def
        page_onDragEnd_def hasPress_def pressCount_def m1 i1)
  have hits: "\<not> hits_canPrev (hits_run [] evs) \<and> \<not> hits_canNext [] (hits_run [] evs) \<and>
      hits_onClickLeft (hits_run [] evs) = hits_run [] evs \<and>
      hits_onClickRight [] (hits_run [] evs) = hits_run [] evs \<and>
      hits_onDragEnd [] d (hits_run [] evs) = hits_run [] evs"
    by (simp add: hits_canPrev_def hits_canNext_def hits_onClickLeft_def hits_onClickRight_def
        hits_onDragEnd_def m2 i2 z2)
  have photo: "\<not> photo_canPrev (photo_run [] evs) \<and> \<not> photo_canNext [] (photo_run [] evs) \<and>
      photo_onClickLeft (photo_run [] evs) = photo_run [] evs \<and>
      photo_onClickRight [] (photo_run [] evs) = photo_run [] evs \<and>
      photo_onDragEnd [] d (photo_run [] evs) = photo_run [] evs"
    by (simp add: photo_canPrev_def photo_canNext_def photo_onClickLeft_def
        photo_onClickRight_def photo_onDragEnd_def m3 i3 z3)
  show ?thesis
    using page_mounted_run_empty [of evs] mounted entry_rail_nonempty [of item]
      entry_photoRail_nonempty [of item] m1 [of st] m2 [of st] m3 [of st] i1 i2 i3
      page hits photo vc0
    by simp
qed

section \<open>Year grouping\<close>

lemma order_keys: "Object_keys order = [''2021'', ''2022'', ''2023'', ''2024'', ''2025'']"
  by (simp add: Object_keys_def order_def isArrayIndex_def isDigit_def Number_def digit_val_def)

lemma raw_roles:
  "map role raw =
    [''Fulbright Scholar'', ''ChatGPT Lab Member'', ''AI and Emerging Tech Research Fellow'',
     ''Social Impact Communications and Strategy'',
     ''Freelance Communications Strategy Consultant'',
     ''Communications Director and Transition Aide'',
     ''Digital Communications, Logistics, and Strategy'', ''Research Assistant'']"
  by (simp add: raw_def)

lemma raw_nth: "raw = [raw ! 0, raw ! 1, raw ! 2, raw ! 3, raw ! 4, raw ! 5, raw ! 6, raw ! 7]"
  by (simp add: raw_def)

lemma experienceByYear_value:
  "experienceByYear =
     Some [(''2021'', [raw ! 7]), (''2022'', [raw ! 6]), (''2023'', [raw ! 5]),
           (''2024'', [raw ! 3, raw ! 4]), (''2025'', [raw ! 0, raw ! 1, raw ! 2])]"
  by (simp add: experienceByYear_def order_keys) (simp add: order_def raw_def)


lemma raw_distinct: "distinct raw"
proof -
  have "distinct (map role raw)"
    unfolding raw_roles by simp
  then show ?thesis
    by (simp add: distinct_map)
qed

lemma bucket_counts:
  assumes "distinct [a0, a1, a2, a3, a4, a5, a6, a7]"
  shows "map (\<lambda>i. length (filter (\<lambda>(y, b). i \<in> set b)
            [(k1, [a7]), (k2, [a6]), (k3, [a5]), (k4, [a3, a4]), (k5, [a0, a1, a2])]))
          [a0, a1, a2, a3, a4, a5, a6, a7] = [1, 1, 1, 1, 1, 1, 1, 1]"
  using assms by auto

lemma order_matches:
  "map (\<lambda>i. map fst (filter (\<lambda>(y, p). p i) order)) raw =
    [[''2025''], [''2025''], [''2025''], [''2024''], [''2024''], [''2023''], [''2022''],
     [''2021'']]"
  by (simp add: order_def raw_def)

text \<open>
  Claim C6. The raw list has 8 distinct entries. Each entry satisfies exactly one of the
  five year predicates of \<open>order\<close> (the list of matching years is a singleton for
  every entry), \<open>experienceByYear\<close> is built without error, each entry occurs in
  exactly one of its buckets, and the buckets together hold the raw list, nothing dropped
  and nothing repeated. The buckets are listed under the keys in the order
  \<open>Object.keys\<close> gives them, ascending for integer-like keys.
\<close>

theorem C6_year_partition:
  "length raw = 8 \<and> distinct raw \<and>
   map fst order = [''2025'', ''2024'', ''2023'', ''2022'', ''2021''] \<and>
   map (\<lambda>i. map fst (filter (\<lambda>(y, p). p i) order)) raw =
     [[''2025''], [''2025''], [''2025''], [''2024''], [''2024''], [''2023''], [''2022''],
      [''2021'']] \<and>
   experienceByYear =
     Some [(''2021'', [raw ! 7]), (''2022'', [raw ! 6]), (''2023'', [raw ! 5]),
           (''2024'', [raw ! 3, raw ! 4]), (''2025'', [raw ! 0, raw ! 1, raw ! 2])] \<and>
   map_option (\<lambda>byYear. map (\<lambda>i. length (filter (\<lambda>(y, b). i \<in> set b) byYear)) raw)
     experienceByYear = Some [1, 1, 1, 1, 1, 1, 1, 1] \<and>
   map_option (\<lambda>byYear. concat (map snd (rev byYear))) experienceByYear = Some raw"
proof -
  have len: "length raw = 8"
    by (simp add: raw_def)
  have keys: "map fst order = [''2025'', ''2024'', ''2023'', ''2022'', ''2021'']"
    by (simp add: order_def)
  have d: "distinct [raw ! 0, raw ! 1, raw ! 2, raw ! 3, raw ! 4, raw ! 5, raw ! 6, raw ! 7]"
    using raw_distinct raw_nth by simp
  let ?cnt = "\<lambda>i. length (filter (\<lambda>(y, b). i \<in> set b)
      [(''2021'', [raw ! 7]), (''2022'', [raw ! 6]), (''2023'', [raw ! 5]),
       (''2024'', [raw ! 3, raw ! 4]), (''2025'', [raw ! 0, raw ! 1, raw ! 2])])"
  have "map ?cnt raw =
      map ?cnt [raw ! 0, raw ! 1, raw ! 2, raw ! 3, raw ! 4, raw ! 5, raw ! 6, raw ! 7]"
    by (rule arg_cong [OF raw_nth])
  also have "\<dots> = [1, 1, 1, 1, 1, 1, 1, 1]"
    by (rule bucket_counts [OF d])
  finally have counts: "map_option
      (\<lambda>byYear. map (\<lambda>i. length (filter (\<lambda>(y, b). i \<in> set b) byYear)) raw)
      experienceByYear = Some [1, 1, 1, 1, 1, 1, 1, 1]"
    unfolding experienceByYear_value option.map by (simp only:)
  have all: "map_option (\<lambda>byYear. concat (map snd (rev byYear))) experienceByYear = Some raw"
    unfolding experienceByYear_value option.map
    using raw_nth by simp
  show ?thesis
    using len raw_distinct keys order_matches experienceByYear_value counts all
    by (intro conjI)
qed


section \<open>Flattened list\<close>

lemma truncate_withYear: "ExperienceItem.truncate (withYear y i) = i"
  by (simp add: withYear_def ExperienceItem.truncate_def)

lemma year_withYear: "year (withYear y i) = y"
  by (simp add: withYear_def)

lemma byYear_keys:
  "Object_keys [(''2021'', a), (''2022'', b), (''2023'', c), (''2024'', d), (''2025'', e)] =
     [''2021'', ''2022'', ''2023'', ''2024'', ''2025'']"
  by (simp add: Object_keys_def isArrayIndex_def isDigit_def Number_def digit_val_def)

lemma year_numbers:
  "map Number [''2025'', ''2024'', ''2023'', ''2022'', ''2021''] = [2025, 2024, 2023, 2022, 2021]"
  by (simp add: Number_def digit_val_def)

lemma sorted_years:
  "sort_key (\<lambda>y. - Number y) [''2021'', ''2022'', ''2023'', ''2024'', ''2025''] =
     [''2025'', ''2024'', ''2023'', ''2022'', ''2021'']"
  by (simp add: Number_def digit_val_def)

lemma buildItems_value:
  "buildItems =
     Some (map (withYear ''2025'') [raw ! 0, raw ! 1, raw ! 2] @
           map (withYear ''2024'') [raw ! 3, raw ! 4] @
           map (withYear ''2023'') [raw ! 5] @
           map (withYear ''2022'') [raw ! 6] @
           map (withYear ''2021'') [raw ! 7])"
  unfolding buildItems_def experienceByYear_value option.map byYear_keys Let_def sorted_years
  by simp

lemma bucket_of_year:
  "map ExperienceItem.truncate
     (filter (\<lambda>e. year e = y) (concat (map (\<lambda>(y', p). map (withYear y') (filter p xs)) ord))) =
   concat (map (\<lambda>(y', p). if y' = y then filter p xs else []) ord)"
proof (induction ord)
  case Nil
  show ?case by simp
next
  case (Cons a ord)
  obtain y' p where a: "a = (y', p)" by (cases a)
  have "map ExperienceItem.truncate (filter (\<lambda>e. year e = y) (map (withYear y') (filter p xs))) =
      (if y' = y then filter p xs else [])"
    by (simp add: filter_map o_def year_withYear truncate_withYear)
  with Cons.IH show ?case
    by (simp add: a)
qed

lemma bucket_absent:
  "y \<notin> fst ` set ord \<Longrightarrow>
   concat (map (\<lambda>(y', p). if y' = y then filter p xs else []) ord) = []"
  by (induction ord) auto

lemma bucket_subseq:
  "distinct (map fst ord) \<Longrightarrow>
   subseq (concat (map (\<lambda>(y', p). if y' = y then filter p xs else []) ord)) xs"
proof (induction ord)
  case Nil
  show ?case by simp
next
  case (Cons a ord)
  obtain y' p where a: "a = (y', p)" by (cases a)
  show ?case
  proof (cases "y' = y")
    case True
    with Cons.prems a have "y \<notin> fst ` set ord" by simp
    then show ?thesis
      by (simp add: a True bucket_absent)
  next
    case False
    with Cons show ?thesis by (simp add: a)
  qed
qed

lemma order_buckets:
  "concat (map (\<lambda>(y, p). map (withYear y) (filter p raw)) order) =
     map (withYear ''2025'') [raw ! 0, raw ! 1, raw ! 2] @
     map (withYear ''2024'') [raw ! 3, raw ! 4] @
     map (withYear ''2023'') [raw ! 5] @
     map (withYear ''2022'') [raw ! 6] @
     map (withYear ''2021'') [raw ! 7]"
  by (simp add: order_def raw_def)

text \<open>
  Claim C7. \<open>buildItems\<close> returns the year buckets one after the other in the order
  2025, 2024, 2023, 2022, 2021, which is strictly descending in the numeric year, each
  bucket being the raw list filtered by that year's predicate. So the entries tagged
  with any one year form a subsequence of the raw list, in the raw list's order. The
  result is one fixed value, the raw list with a year attached to every entry.
\<close>

theorem C7_flattened_order:
  "buildItems = Some (concat (map (\<lambda>(y, p). map (withYear y) (filter p raw)) order)) \<and>
   map fst order = [''2025'', ''2024'', ''2023'', ''2022'', ''2021''] \<and>
   map Number (map fst order) = [2025, 2024, 2023, 2022, 2021] \<and>
   sorted_wrt (\<lambda>a b. Number b < Number a) (map fst order) \<and>
   map_option (map year) buildItems =
     Some [''2025'', ''2025'', ''2025'', ''2024'', ''2024'', ''2023'', ''2022'', ''2021''] \<and>
   map_option (map ExperienceItem.truncate) buildItems = Some raw \<and>
   (\<exists>items. buildItems = Some items \<and>
      (\<forall>y. subseq (map ExperienceItem.truncate (filter (\<lambda>e. year e = y) items)) raw))"
proof -
  have keys: "map fst order = [''2025'', ''2024'', ''2023'', ''2022'', ''2021'']"
    by (simp add: order_def)
  have b: "buildItems = Some (concat (map (\<lambda>(y, p). map (withYear y) (filter p raw)) order))"
    unfolding order_buckets by (rule buildItems_value)
  have nums: "map Number (map fst order) = [2025, 2024, 2023, 2022, 2021]"
    unfolding keys by (rule year_numbers)
  have desc: "sorted_wrt (\<lambda>a b. Number b < Number a) (map fst order)"
    using nums by (simp add: keys)
  have years: "map_option (map year) buildItems =
      Some [''2025'', ''2025'', ''2025'', ''2024'', ''2024'', ''2023'', ''2022'', ''2021'']"
    unfolding buildItems_value by (simp add: year_withYear)
  have items: "map_option (map ExperienceItem.truncate) buildItems = Some raw"
    unfolding buildItems_value using raw_nth by (simp add: truncate_withYear)
  have sub: "subseq (map ExperienceItem.truncate (filter (\<lambda>e. year e = y)
      (concat (map (\<lambda>(y, p). map (withYear y) (filter p raw)) order)))) raw" for y
    unfolding bucket_of_year by (rule bucket_subseq) (simp add: keys)
  from b sub have ex: "\<exists>items. buildItems = Some items \<and>
      (\<forall>y. subseq (map ExperienceItem.truncate (filter (\<lambda>e. year e = y) items)) raw)"
    by blast
  from b keys nums desc years items ex show ?thesis
    by (intro conjI)
qed


section \<open>Press hits of a timeline entry\<close>

lemma length_DEFAULT_COMMS_PRESS_HITS: "length DEFAULT_COMMS_PRESS_HITS = 9"
  by (simp add: DEFAULT_COMMS_PRESS_HITS_def)

lemma DEFAULT_COMMS_PRESS_HITS_nonempty: "DEFAULT_COMMS_PRESS_HITS \<noteq> []"
  using length_DEFAULT_COMMS_PRESS_HITS by auto

text \<open>
  Claim C10. For every entry handed to \<open>TimelineEntry\<close>: when its \<open>pressHits\<close> are
  absent or empty, the rail receives the 9 default comms press hits if the lowercased
  role contains "communications director" or the lowercased org contains "house of
  representatives", and otherwise there are no press hits and no rail is rendered; an
  entry with a non-empty \<open>pressHits\<close> list gets a rail with its own list.
\<close>

theorem C10_press_hits_fallback:
  "((pressHits item = None \<or> pressHits item = Some []) \<longrightarrow>
      (isCommsDirector item \<longrightarrow>
         entry_pressHits item = DEFAULT_COMMS_PRESS_HITS \<and>
         entry_rail item = Some DEFAULT_COMMS_PRESS_HITS) \<and>
      (\<not> isCommsDirector item \<longrightarrow> entry_pressHits item = [] \<and> entry_rail item = None)) \<and>
   (pressHits item = Some hs \<and> hs \<noteq> [] \<longrightarrow>
      entry_pressHits item = hs \<and> entry_rail item = Some hs) \<and>
   isCommsDirector item =
     (str_includes (toLowerCase (role item)) ''communications director'' \<or>
      str_includes (toLowerCase (org item)) ''house of representatives'') \<and>
   length DEFAULT_COMMS_PRESS_HITS = 9"
  using DEFAULT_COMMS_PRESS_HITS_nonempty length_DEFAULT_COMMS_PRESS_HITS
  by (auto simp add: entry_pressHits_def entry_rail_def isCommsDirector_def)

lemma raw_comms:
  "map (\<lambda>i. isCommsDirector i) raw = [False, False, False, False, False, True, False, False]"
  by code_simp

lemma raw_pressHits:
  "map (\<lambda>i. map_option length (pressHits i)) raw =
     [None, None, None, None, None, Some 9, None, None]"
  by (simp add: raw_def)

lemma length_raw: "length raw = 8"
  by (simp add: raw_def)

lemma isCommsDirector_pressHits_update:
  "isCommsDirector (i\<lparr>pressHits := x\<rparr>) = isCommsDirector i"
  by (simp add: isCommsDirector_def)

text \<open>
  On the data: the communications director entry without its press hits falls back to
  the default list, the Fulbright entry has no rail, and the communications director
  entry as written shows its own 9 hits.
\<close>

theorem C10_press_hits_fallback_witness:
  "entry_rail ((raw ! 5)\<lparr>pressHits := None\<rparr>) = Some DEFAULT_COMMS_PRESS_HITS \<and>
   entry_rail ((raw ! 5)\<lparr>pressHits := Some []\<rparr>) = Some DEFAULT_COMMS_PRESS_HITS \<and>
   pressHits (raw ! 0) = None \<and> entry_rail (raw ! 0) = None \<and>
   entry_rail (raw ! 5) = pressHits (raw ! 5) \<and>
   map_option length (entry_rail (raw ! 5)) = Some 9"
proof -
  have c5: "isCommsDirector (raw ! 5)"
    using nth_map [of 5 raw "\<lambda>i. isCommsDirector i"] by (simp add: length_raw raw_comms)
  have c0: "\<not> isCommsDirector (raw ! 0)"
    using nth_map [of 0 raw "\<lambda>i. isCommsDirector i"] by (simp add: length_raw raw_comms)
  have p0: "pressHits (raw ! 0) = None"
    using nth_map [of 0 raw "\<lambda>i. map_option length (pressHits i)"]
    by (simp add: length_raw raw_pressHits)
  have "map_option length (pressHits (raw ! 5)) = Some 9"
    using nth_map [of 5 raw "\<lambda>i. map_option length (pressHits i)"]
    by (simp add: length_raw raw_pressHits)
  then obtain hs where p5: "pressHits (raw ! 5) = Some hs" and l5: "length hs = 9"
    by auto
  from l5 have ne: "hs \<noteq> []" by auto
  have w1: "entry_rail ((raw ! 5)\<lparr>pressHits := None\<rparr>) = Some DEFAULT_COMMS_PRESS_HITS"
    using C10_press_hits_fallback [of "(raw ! 5)\<lparr>pressHits := None\<rparr>", THEN conjunct1] c5
    by (simp add: isCommsDirector_pressHits_update)
  have w2: "entry_rail ((raw ! 5)\<lparr>pressHits := Some []\<rparr>) = Some DEFAULT_COMMS_PRESS_HITS"
    using C10_press_hits_fallback [of "(raw ! 5)\<lparr>pressHits := Some []\<rparr>", THEN conjunct1] c5
    by (simp add: isCommsDirector_pressHits_update)
  have w3: "entry_rail (raw ! 0) = None"
    using C10_press_hits_fallback [of "raw ! 0", THEN conjunct1] c0 p0
    by simp
  have w4: "entry_rail (raw ! 5) = Some hs"
    using C10_press_hits_fallback [of "raw ! 5" hs, THEN conjunct2, THEN conjunct1] p5 ne
    by simp
  from w1 w2 p0 w3 w4 p5 l5 show ?thesis
    by simp
qed

end
